theory Spec2Isabelle
  imports Main
begin

section \<open>Raw storage, element types and outcomes\<close>

text \<open>
  \<^verbatim>\<open>RawMemory<T>\<close> is a block of \<open>capacity_\<close> slots that knows nothing about object
  lifetimes. A slot is either unconstructed storage or holds a live \<open>T\<close>; the block is the
  list of its slots, and \<open>capacity_\<close> is the length of that list (the empty list is the
  null buffer). Sizes and indices are natural numbers: a block of \<open>2^63\<close> slots cannot be
  allocated, so \<open>size_ * 2\<close> never wraps in \<open>size_t\<close>.
\<close>

datatype 'a slot = Raw | Live 'a

type_synonym 'a RawMemory = "'a slot list"

text \<open>
  The exceptions that can cross the container: \<open>std::bad_alloc\<close> from \<open>operator new\<close>,
  and whatever a special member function of \<open>T\<close> throws (identified by a number).
\<close>

datatype exn = BadAlloc | ElemExn nat

text \<open>
  Every call of a special member function of \<open>T\<close> made by the container is recorded, in
  order, whether it returns or throws: an instrumented element type sees exactly this
  sequence. \<open>EvConstruct\<close> is \<open>T(std::forward<Args>(args)...)\<close>, \<open>EvConstructLvalue\<close> is
  \<open>T(args...)\<close> with the arguments passed as lvalues (\<open>CopyConstruct\<close>).
  Assignments record the target first, then the source.
\<close>

datatype ('a, 'arg) event =
    EvConstruct 'arg
  | EvConstructLvalue 'arg
  | EvValueInit
  | EvCopyCtor 'a
  | EvMoveCtor 'a
  | EvCopyAssign 'a 'a
  | EvMoveAssign 'a 'a
  | EvDestroy 'a

type_synonym ('a, 'arg) history = "('a, 'arg) event list"

text \<open>
  The element type \<open>T\<close> as the template sees it: the two traits queried by
  \<open>if constexpr\<close>, and the special member functions. Each function may depend on the
  calls made so far (an element that fails on its N-th construction), and returns
  \<open>Inl e\<close> when it throws \<open>e\<close>. A move returns the new object together with the state the
  source is left in. A call that throws leaves its operands as they were.
  \<open>alloc_ok n\<close> tells whether \<open>operator new\<close> can provide a block of \<open>n\<close> slots.
  The arguments of a construction are values of their own: a call whose argument
  refers to an element of the vector it changes is not described.
\<close>

record ('a, 'arg) elem_type =
  is_nothrow_move_constructible :: bool
  is_copy_constructible :: bool
  construct :: "('a, 'arg) history \<Rightarrow> 'arg \<Rightarrow> exn + 'a"
  construct_lvalue :: "('a, 'arg) history \<Rightarrow> 'arg \<Rightarrow> exn + 'a"
  value_init :: "('a, 'arg) history \<Rightarrow> exn + 'a"
  copy_ctor :: "('a, 'arg) history \<Rightarrow> 'a \<Rightarrow> exn + 'a"
  move_ctor :: "('a, 'arg) history \<Rightarrow> 'a \<Rightarrow> exn + ('a \<times> 'a)"
  copy_assign :: "('a, 'arg) history \<Rightarrow> 'a \<Rightarrow> 'a \<Rightarrow> exn + 'a"
  move_assign :: "('a, 'arg) history \<Rightarrow> 'a \<Rightarrow> 'a \<Rightarrow> exn + ('a \<times> 'a)"
  alloc_ok :: "nat \<Rightarrow> bool"

text \<open>
  What C++ leaves undefined is a result of its own, with the reason: running a
  destructor on a slot that holds no object, reading a slot that holds no object, an
  address past the block or before it, and a range \<open>[first, last)\<close> with \<open>last < first\<close> handed to a
  standard algorithm. The debug-build \<open>assert\<close>s of the source guard the same situations.
\<close>

datatype ub =
    DestroyUnconstructed nat
  | ReadUnconstructed nat
  | OutOfBlock nat
  | BeforeBlock
  | InvalidRange nat nat

text \<open>
  A call returns normally with the new state and its result, or an exception propagates
  to the caller with the state it leaves behind, or the behaviour is undefined.
\<close>

datatype ('s, 'r) outcome = Done 's 'r | Thrown 's exn | Undefined ub

section \<open>Operations on slots and the standard algorithms\<close>

text \<open>\<open>Destroy(buf)\<close>, that is \<open>buf->~T()\<close>, at slot \<open>i\<close> of a block.\<close>

definition Destroy ::
  "'a RawMemory \<Rightarrow> nat \<Rightarrow> ('a, 'arg) history \<Rightarrow> ('a RawMemory \<times> ('a, 'arg) history, unit) outcome" where
  "Destroy blk i h =
     (if length blk \<le> i then Undefined (OutOfBlock i)
      else case blk ! i of
             Raw \<Rightarrow> Undefined (DestroyUnconstructed i)
           | Live x \<Rightarrow> Done (blk[i := Raw], h @ [EvDestroy x]) ())"

text \<open>\<open>std::destroy_n(first, n)\<close> on the slots \<open>i, i + 1, ..., i + n - 1\<close>.\<close>

fun destroy_n ::
  "'a RawMemory \<Rightarrow> nat \<Rightarrow> nat \<Rightarrow> ('a, 'arg) history \<Rightarrow> ('a RawMemory \<times> ('a, 'arg) history, unit) outcome" where
  "destroy_n blk i 0 h = Done (blk, h) ()"
| "destroy_n blk i (Suc n) h =
     (case Destroy blk i h of
        Done (blk', h') _ \<Rightarrow> destroy_n blk' (Suc i) n h'
      | Thrown s e \<Rightarrow> Thrown s e
      | Undefined u \<Rightarrow> Undefined u)"

text \<open>
  \<open>std::uninitialized_copy_n(src + si, n, dst + di)\<close>: copy-constructs \<open>n\<close> objects into
  unconstructed slots of another block. When a copy throws, the objects this call has
  constructed are destroyed (the standard leaves their order open) and the exception
  propagates.
\<close>

fun uninitialized_copy_n ::
  "('a, 'arg) elem_type \<Rightarrow> 'a RawMemory \<Rightarrow> nat \<Rightarrow> nat \<Rightarrow> 'a RawMemory \<Rightarrow> nat \<Rightarrow>
   ('a, 'arg) history \<Rightarrow> ('a RawMemory \<times> ('a, 'arg) history, unit) outcome" where
  "uninitialized_copy_n T src si 0 dst di h = Done (dst, h) ()"
| "uninitialized_copy_n T src si (Suc n) dst di h =
     (if length src \<le> si then Undefined (OutOfBlock si)
      else if length dst \<le> di then Undefined (OutOfBlock di)
      else case src ! si of
        Raw \<Rightarrow> Undefined (ReadUnconstructed si)
      | Live x \<Rightarrow>
          (case copy_ctor T h x of
             Inl e \<Rightarrow> Thrown (dst, h @ [EvCopyCtor x]) e
           | Inr y \<Rightarrow>
               (case uninitialized_copy_n T src (Suc si) n (dst[di := Live y]) (Suc di)
                       (h @ [EvCopyCtor x]) of
                  Done s r \<Rightarrow> Done s r
                | Thrown (dst', h') e \<Rightarrow> Thrown (dst'[di := Raw], h' @ [EvDestroy y]) e
                | Undefined u \<Rightarrow> Undefined u)))"

text \<open>
  \<open>std::uninitialized_move_n(src + si, n, dst + di)\<close>: as above with the move
  constructor, which also changes the source objects. The result is the source block,
  the destination block and the history.
\<close>

fun uninitialized_move_n ::
  "('a, 'arg) elem_type \<Rightarrow> 'a RawMemory \<Rightarrow> nat \<Rightarrow> nat \<Rightarrow> 'a RawMemory \<Rightarrow> nat \<Rightarrow>
   ('a, 'arg) history \<Rightarrow> ('a RawMemory \<times> 'a RawMemory \<times> ('a, 'arg) history, unit) outcome" where
  "uninitialized_move_n T src si 0 dst di h = Done (src, dst, h) ()"
| "uninitialized_move_n T src si (Suc n) dst di h =
     (if length src \<le> si then Undefined (OutOfBlock si)
      else if length dst \<le> di then Undefined (OutOfBlock di)
      else case src ! si of
        Raw \<Rightarrow> Undefined (ReadUnconstructed si)
      | Live x \<Rightarrow>
          (case move_ctor T h x of
             Inl e \<Rightarrow> Thrown (src, dst, h @ [EvMoveCtor x]) e
           | Inr (y, x') \<Rightarrow>
               (case uninitialized_move_n T (src[si := Live x']) (Suc si) n
                       (dst[di := Live y]) (Suc di) (h @ [EvMoveCtor x]) of
                  Done s r \<Rightarrow> Done s r
                | Thrown (src', dst', h') e \<Rightarrow>
                    Thrown (src', dst'[di := Raw], h' @ [EvDestroy y]) e
                | Undefined u \<Rightarrow> Undefined u)))"

text \<open>\<open>std::uninitialized_value_construct_n(blk + i, n)\<close>.\<close>

fun uninitialized_value_construct_n ::
  "('a, 'arg) elem_type \<Rightarrow> 'a RawMemory \<Rightarrow> nat \<Rightarrow> nat \<Rightarrow>
   ('a, 'arg) history \<Rightarrow> ('a RawMemory \<times> ('a, 'arg) history, unit) outcome" where
  "uninitialized_value_construct_n T blk i 0 h = Done (blk, h) ()"
| "uninitialized_value_construct_n T blk i (Suc n) h =
     (if length blk \<le> i then Undefined (OutOfBlock i)
      else case value_init T h of
             Inl e \<Rightarrow> Thrown (blk, h @ [EvValueInit]) e
           | Inr y \<Rightarrow>
               (case uninitialized_value_construct_n T (blk[i := Live y]) (Suc i) n
                       (h @ [EvValueInit]) of
                  Done s r \<Rightarrow> Done s r
                | Thrown (blk', h') e \<Rightarrow> Thrown (blk'[i := Raw], h' @ [EvDestroy y]) e
                | Undefined u \<Rightarrow> Undefined u))"

text \<open>
  One assignment between two slots of the same block: \<open>blk[d] = std::move(blk[s])\<close> and
  \<open>blk[d] = blk[s]\<close>. Both slots must hold objects.
\<close>

definition move_assign_slot ::
  "('a, 'arg) elem_type \<Rightarrow> 'a RawMemory \<Rightarrow> nat \<Rightarrow> nat \<Rightarrow> ('a, 'arg) history \<Rightarrow>
   ('a RawMemory \<times> ('a, 'arg) history, unit) outcome" where
  "move_assign_slot T blk d s h =
     (if length blk \<le> s then Undefined (OutOfBlock s)
      else if length blk \<le> d then Undefined (OutOfBlock d)
      else case blk ! s of
        Raw \<Rightarrow> Undefined (ReadUnconstructed s)
      | Live x \<Rightarrow>
          (case blk ! d of
             Raw \<Rightarrow> Undefined (ReadUnconstructed d)
           | Live y \<Rightarrow>
               (case move_assign T h y x of
                  Inl e \<Rightarrow> Thrown (blk, h @ [EvMoveAssign y x]) e
                | Inr (y', x') \<Rightarrow>
                    Done (blk[s := Live x', d := Live y'], h @ [EvMoveAssign y x]) ())))"

definition copy_assign_slot ::
  "('a, 'arg) elem_type \<Rightarrow> 'a RawMemory \<Rightarrow> nat \<Rightarrow> nat \<Rightarrow> ('a, 'arg) history \<Rightarrow>
   ('a RawMemory \<times> ('a, 'arg) history, unit) outcome" where
  "copy_assign_slot T blk d s h =
     (if length blk \<le> s then Undefined (OutOfBlock s)
      else if length blk \<le> d then Undefined (OutOfBlock d)
      else case blk ! s of
        Raw \<Rightarrow> Undefined (ReadUnconstructed s)
      | Live x \<Rightarrow>
          (case blk ! d of
             Raw \<Rightarrow> Undefined (ReadUnconstructed d)
           | Live y \<Rightarrow>
               (case copy_assign T h y x of
                  Inl e \<Rightarrow> Thrown (blk, h @ [EvCopyAssign y x]) e
                | Inr y' \<Rightarrow> Done (blk[d := Live y'], h @ [EvCopyAssign y x]) ())))"

text \<open>
  The loop of \<open>std::move_backward\<close>: \<open>n\<close> times \<open>*--d_last = std::move(*--last)\<close>.
\<close>

fun move_backward_loop ::
  "('a, 'arg) elem_type \<Rightarrow> 'a RawMemory \<Rightarrow> nat \<Rightarrow> nat \<Rightarrow> nat \<Rightarrow> ('a, 'arg) history \<Rightarrow>
   ('a RawMemory \<times> ('a, 'arg) history, unit) outcome" where
  "move_backward_loop T blk lst d_lst 0 h = Done (blk, h) ()"
| "move_backward_loop T blk lst d_lst (Suc n) h =
     (if lst = 0 \<or> d_lst = 0 then Undefined BeforeBlock
      else case move_assign_slot T blk (d_lst - 1) (lst - 1) h of
             Done (blk', h') _ \<Rightarrow> move_backward_loop T blk' (lst - 1) (d_lst - 1) n h'
           | Thrown s e \<Rightarrow> Thrown s e
           | Undefined u \<Rightarrow> Undefined u)"

text \<open>\<open>std::move_backward(blk + first, blk + last, blk + d_last)\<close>.\<close>

definition move_backward ::
  "('a, 'arg) elem_type \<Rightarrow> 'a RawMemory \<Rightarrow> nat \<Rightarrow> nat \<Rightarrow> nat \<Rightarrow> ('a, 'arg) history \<Rightarrow>
   ('a RawMemory \<times> ('a, 'arg) history, unit) outcome" where
  "move_backward T blk first lst d_lst h =
     (if lst < first then Undefined (InvalidRange first lst)
      else move_backward_loop T blk lst d_lst (lst - first) h)"

text \<open>
  The loop of \<open>std::move\<close> and that of \<open>std::copy\<close> on a range: \<open>n\<close> times
  \<open>*d_first++ = std::move(*first++)\<close>, respectively \<open>*d_first++ = *first++\<close>.
\<close>

fun move_loop ::
  "('a, 'arg) elem_type \<Rightarrow> 'a RawMemory \<Rightarrow> nat \<Rightarrow> nat \<Rightarrow> nat \<Rightarrow> ('a, 'arg) history \<Rightarrow>
   ('a RawMemory \<times> ('a, 'arg) history, unit) outcome" where
  "move_loop T blk first d_first 0 h = Done (blk, h) ()"
| "move_loop T blk first d_first (Suc n) h =
     (case move_assign_slot T blk d_first first h of
        Done (blk', h') _ \<Rightarrow> move_loop T blk' (Suc first) (Suc d_first) n h'
      | Thrown s e \<Rightarrow> Thrown s e
      | Undefined u \<Rightarrow> Undefined u)"

fun copy_loop ::
  "('a, 'arg) elem_type \<Rightarrow> 'a RawMemory \<Rightarrow> nat \<Rightarrow> nat \<Rightarrow> nat \<Rightarrow> ('a, 'arg) history \<Rightarrow>
   ('a RawMemory \<times> ('a, 'arg) history, unit) outcome" where
  "copy_loop T blk first d_first 0 h = Done (blk, h) ()"
| "copy_loop T blk first d_first (Suc n) h =
     (case copy_assign_slot T blk d_first first h of
        Done (blk', h') _ \<Rightarrow> copy_loop T blk' (Suc first) (Suc d_first) n h'
      | Thrown s e \<Rightarrow> Thrown s e
      | Undefined u \<Rightarrow> Undefined u)"

text \<open>\<open>std::move(blk + first, blk + last, blk + d_first)\<close> and \<open>std::copy\<close> likewise.\<close>

definition move_range ::
  "('a, 'arg) elem_type \<Rightarrow> 'a RawMemory \<Rightarrow> nat \<Rightarrow> nat \<Rightarrow> nat \<Rightarrow> ('a, 'arg) history \<Rightarrow>
   ('a RawMemory \<times> ('a, 'arg) history, unit) outcome" where
  "move_range T blk first lst d_first h =
     (if lst < first then Undefined (InvalidRange first lst)
      else move_loop T blk first d_first (lst - first) h)"

definition copy_range ::
  "('a, 'arg) elem_type \<Rightarrow> 'a RawMemory \<Rightarrow> nat \<Rightarrow> nat \<Rightarrow> nat \<Rightarrow> ('a, 'arg) history \<Rightarrow>
   ('a RawMemory \<times> ('a, 'arg) history, unit) outcome" where
  "copy_range T blk first lst d_first h =
     (if lst < first then Undefined (InvalidRange first lst)
      else copy_loop T blk first d_first (lst - first) h)"

text \<open>
  Placement new into slot \<open>i\<close>. \<open>ForwardConstruct(buf, args...)\<close> runs
  \<open>T(std::forward<Args>(args)...)\<close>, \<open>CopyConstruct(buf, args...)\<close> runs \<open>T(args...)\<close>.
  The source also calls them with an element of the same block as the argument:
  \<open>ForwardConstruct(buf, std::forward<T>(data_[j]))\<close> is the move constructor on slot \<open>j\<close>,
  \<open>CopyConstruct(buf, std::forward<T>(data_[j]))\<close> the copy constructor.
\<close>

definition ForwardConstruct ::
  "('a, 'arg) elem_type \<Rightarrow> 'a RawMemory \<Rightarrow> nat \<Rightarrow> 'arg \<Rightarrow> ('a, 'arg) history \<Rightarrow>
   ('a RawMemory \<times> ('a, 'arg) history, unit) outcome" where
  "ForwardConstruct T blk i a h =
     (if length blk \<le> i then Undefined (OutOfBlock i)
      else case construct T h a of
             Inl e \<Rightarrow> Thrown (blk, h @ [EvConstruct a]) e
           | Inr x \<Rightarrow> Done (blk[i := Live x], h @ [EvConstruct a]) ())"

definition CopyConstruct ::
  "('a, 'arg) elem_type \<Rightarrow> 'a RawMemory \<Rightarrow> nat \<Rightarrow> 'arg \<Rightarrow> ('a, 'arg) history \<Rightarrow>
   ('a RawMemory \<times> ('a, 'arg) history, unit) outcome" where
  "CopyConstruct T blk i a h =
     (if length blk \<le> i then Undefined (OutOfBlock i)
      else case construct_lvalue T h a of
             Inl e \<Rightarrow> Thrown (blk, h @ [EvConstructLvalue a]) e
           | Inr x \<Rightarrow> Done (blk[i := Live x], h @ [EvConstructLvalue a]) ())"

definition ForwardConstruct_from ::
  "('a, 'arg) elem_type \<Rightarrow> 'a RawMemory \<Rightarrow> nat \<Rightarrow> nat \<Rightarrow> ('a, 'arg) history \<Rightarrow>
   ('a RawMemory \<times> ('a, 'arg) history, unit) outcome" where
  "ForwardConstruct_from T blk i j h =
     (if length blk \<le> j then Undefined (OutOfBlock j)
      else if length blk \<le> i then Undefined (OutOfBlock i)
      else case blk ! j of
        Raw \<Rightarrow> Undefined (ReadUnconstructed j)
      | Live x \<Rightarrow>
          (case move_ctor T h x of
             Inl e \<Rightarrow> Thrown (blk, h @ [EvMoveCtor x]) e
           | Inr (y, x') \<Rightarrow> Done (blk[j := Live x', i := Live y], h @ [EvMoveCtor x]) ()))"

definition CopyConstruct_from ::
  "('a, 'arg) elem_type \<Rightarrow> 'a RawMemory \<Rightarrow> nat \<Rightarrow> nat \<Rightarrow> ('a, 'arg) history \<Rightarrow>
   ('a RawMemory \<times> ('a, 'arg) history, unit) outcome" where
  "CopyConstruct_from T blk i j h =
     (if length blk \<le> j then Undefined (OutOfBlock j)
      else if length blk \<le> i then Undefined (OutOfBlock i)
      else case blk ! j of
        Raw \<Rightarrow> Undefined (ReadUnconstructed j)
      | Live x \<Rightarrow>
          (case copy_ctor T h x of
             Inl e \<Rightarrow> Thrown (blk, h @ [EvCopyCtor x]) e
           | Inr y \<Rightarrow> Done (blk[i := Live y], h @ [EvCopyCtor x]) ()))"

text \<open>
  \<open>RawMemory(capacity)\<close>: \<open>Allocate\<close> calls \<open>operator new\<close> only for a non-zero
  capacity; the new block has no constructed slot. \<open>None\<close> is \<open>std::bad_alloc\<close>.
\<close>

definition Allocate :: "('a, 'arg) elem_type \<Rightarrow> nat \<Rightarrow> 'a RawMemory option" where
  "Allocate T n = (if n \<noteq> 0 \<and> \<not> alloc_ok T n then None else Some (replicate n Raw))"

section \<open>The vector\<close>

text \<open>
  The members \<open>data_\<close> and \<open>size_\<close> of \<open>Vector<T>\<close>; an Isabelle name cannot end with an
  underscore, so they are \<open>data_m\<close> and \<open>size_m\<close>.
\<close>

record 'a Vector =
  data_m :: "'a RawMemory"
  size_m :: nat

definition Size :: "'a Vector \<Rightarrow> nat" where
  "Size v = size_m v"

definition Capacity :: "'a Vector \<Rightarrow> nat" where
  "Capacity v = length (data_m v)"

text \<open>\<open>Vector() = default\<close>: the null buffer and size 0.\<close>

definition Vector_default :: "'a Vector" where
  "Vector_default = \<lparr>data_m = [], size_m = 0\<rparr>"

text \<open>
  The test of every \<open>if constexpr\<close> that chooses how existing elements reach a new
  block: \<open>std::is_nothrow_move_constructible_v<T> || !std::is_copy_constructible_v<T>\<close>.
\<close>

definition relocate_by_move :: "('a, 'arg) elem_type \<Rightarrow> bool" where
  "relocate_by_move T = (is_nothrow_move_constructible T \<or> \<not> is_copy_constructible T)"

text \<open>
  The two branches of that \<open>if constexpr\<close>: \<open>std::uninitialized_move_n\<close> when the test
  holds, \<open>std::uninitialized_copy_n\<close> (which leaves the source block as it is) otherwise.
\<close>

definition relocate ::
  "('a, 'arg) elem_type \<Rightarrow> 'a RawMemory \<Rightarrow> nat \<Rightarrow> nat \<Rightarrow> 'a RawMemory \<Rightarrow> nat \<Rightarrow>
   ('a, 'arg) history \<Rightarrow> ('a RawMemory \<times> 'a RawMemory \<times> ('a, 'arg) history, unit) outcome" where
  "relocate T src si n dst di h =
     (if relocate_by_move T then uninitialized_move_n T src si n dst di h
      else case uninitialized_copy_n T src si n dst di h of
             Done (dst', h') _ \<Rightarrow> Done (src, dst', h') ()
           | Thrown (dst', h') e \<Rightarrow> Thrown (src, dst', h') e
           | Undefined u \<Rightarrow> Undefined u)"

text \<open>
  \<open>Reserve(new_capacity)\<close>. After the relocation the blocks are swapped, the objects of
  the old block are destroyed and the old block is released with \<open>new_data\<close>. When the
  relocation throws, \<open>new_data\<close> is released and the vector keeps its block, in the state
  the relocation left it.
\<close>

definition Reserve ::
  "('a, 'arg) elem_type \<Rightarrow> 'a Vector \<times> ('a, 'arg) history \<Rightarrow> nat \<Rightarrow>
   ('a Vector \<times> ('a, 'arg) history, unit) outcome" where
  "Reserve T s new_capacity =
     (case s of (v, h) \<Rightarrow>
        if new_capacity \<le> length (data_m v) then Done (v, h) ()
        else
          (case Allocate T new_capacity of
             None \<Rightarrow> Thrown (v, h) BadAlloc
           | Some new_data \<Rightarrow>
               (case relocate T (data_m v) 0 (size_m v) new_data 0 h of
                  Undefined u \<Rightarrow> Undefined u
                | Thrown (old, new, h1) e \<Rightarrow> Thrown (v\<lparr>data_m := old\<rparr>, h1) e
                | Done (old, new, h1) _ \<Rightarrow>
                    (case destroy_n old 0 (size_m v) h1 of
                       Undefined u \<Rightarrow> Undefined u
                     | Thrown (old', h2) e \<Rightarrow> Thrown (v\<lparr>data_m := new\<rparr>, h2) e
                     | Done (old', h2) _ \<Rightarrow> Done (v\<lparr>data_m := new\<rparr>, h2) ()))))"

text \<open>
  \<open>PushBack(value)\<close>. With \<open>size_ == Capacity()\<close>: a block of
  \<open>size_ == 0 ? 1 : size_ * 2\<close> slots, the new element constructed in its slot \<open>size_\<close>
  first, then the existing elements relocated, the blocks swapped, the objects of the
  old block destroyed and the old block released. The handler of the construction runs
  \<open>Destroy(new_data + size_)\<close> and rethrows. When the relocation throws, \<open>new_data\<close> is
  released as it is. Without growth the element is constructed in slot \<open>size_\<close>; the
  handler runs \<open>Destroy(data_ + size_)\<close> and rethrows.
\<close>

definition PushBack ::
  "('a, 'arg) elem_type \<Rightarrow> 'a Vector \<times> ('a, 'arg) history \<Rightarrow> 'arg \<Rightarrow>
   ('a Vector \<times> ('a, 'arg) history, unit) outcome" where
  "PushBack T s a =
     (case s of (v, h) \<Rightarrow>
        if size_m v = Capacity v then
          (case Allocate T (if size_m v = 0 then 1 else size_m v * 2) of
             None \<Rightarrow> Thrown (v, h) BadAlloc
           | Some new_data \<Rightarrow>
               (case ForwardConstruct T new_data (size_m v) a h of
                  Undefined u \<Rightarrow> Undefined u
                | Thrown (new0, h0) e \<Rightarrow>
                    (case Destroy new0 (size_m v) h0 of
                       Undefined u \<Rightarrow> Undefined u
                     | Thrown (new1, h1) e' \<Rightarrow> Thrown (v, h1) e'
                     | Done (new1, h1) _ \<Rightarrow> Thrown (v, h1) e)
                | Done (new0, h0) _ \<Rightarrow>
                    (case relocate T (data_m v) 0 (size_m v) new0 0 h0 of
                       Undefined u \<Rightarrow> Undefined u
                     | Thrown (old1, new1, h1) e \<Rightarrow> Thrown (v\<lparr>data_m := old1\<rparr>, h1) e
                     | Done (old1, new1, h1) _ \<Rightarrow>
                         (case destroy_n old1 0 (size_m v) h1 of
                            Undefined u \<Rightarrow> Undefined u
                          | Thrown (old2, h2) e \<Rightarrow> Thrown (v\<lparr>data_m := new1\<rparr>, h2) e
                          | Done (old2, h2) _ \<Rightarrow>
                              Done (\<lparr>data_m = new1, size_m = size_m v + 1\<rparr>, h2) ()))))
        else
          (case ForwardConstruct T (data_m v) (size_m v) a h of
             Undefined u \<Rightarrow> Undefined u
           | Thrown (d0, h0) e \<Rightarrow>
               (case Destroy d0 (size_m v) h0 of
                  Undefined u \<Rightarrow> Undefined u
                | Thrown (d1, h1) e' \<Rightarrow> Thrown (v\<lparr>data_m := d1\<rparr>, h1) e'
                | Done (d1, h1) _ \<Rightarrow> Thrown (v\<lparr>data_m := d1\<rparr>, h1) e)
           | Done (d0, h0) _ \<Rightarrow> Done (\<lparr>data_m = d0, size_m = size_m v + 1\<rparr>, h0) ()))"

text \<open>
  \<open>EmplaceBack(args...)\<close>: the same two branches; it returns a reference to
  \<open>data_[size_ - 1]\<close>, here the index of that slot.
\<close>

definition EmplaceBack ::
  "('a, 'arg) elem_type \<Rightarrow> 'a Vector \<times> ('a, 'arg) history \<Rightarrow> 'arg \<Rightarrow>
   ('a Vector \<times> ('a, 'arg) history, nat) outcome" where
  "EmplaceBack T s a =
     (case s of (v, h) \<Rightarrow>
        if size_m v = Capacity v then
          (case Allocate T (if size_m v = 0 then 1 else size_m v * 2) of
             None \<Rightarrow> Thrown (v, h) BadAlloc
           | Some new_data \<Rightarrow>
               (case ForwardConstruct T new_data (size_m v) a h of
                  Undefined u \<Rightarrow> Undefined u
                | Thrown (new0, h0) e \<Rightarrow>
                    (case Destroy new0 (size_m v) h0 of
                       Undefined u \<Rightarrow> Undefined u
                     | Thrown (new1, h1) e' \<Rightarrow> Thrown (v, h1) e'
                     | Done (new1, h1) _ \<Rightarrow> Thrown (v, h1) e)
                | Done (new0, h0) _ \<Rightarrow>
                    (case relocate T (data_m v) 0 (size_m v) new0 0 h0 of
                       Undefined u \<Rightarrow> Undefined u
                     | Thrown (old1, new1, h1) e \<Rightarrow> Thrown (v\<lparr>data_m := old1\<rparr>, h1) e
                     | Done (old1, new1, h1) _ \<Rightarrow>
                         (case destroy_n old1 0 (size_m v) h1 of
                            Undefined u \<Rightarrow> Undefined u
                          | Thrown (old2, h2) e \<Rightarrow> Thrown (v\<lparr>data_m := new1\<rparr>, h2) e
                          | Done (old2, h2) _ \<Rightarrow>
                              Done (\<lparr>data_m = new1, size_m = size_m v + 1\<rparr>, h2) (size_m v)))))
        else
          (case ForwardConstruct T (data_m v) (size_m v) a h of
             Undefined u \<Rightarrow> Undefined u
           | Thrown (d0, h0) e \<Rightarrow>
               (case Destroy d0 (size_m v) h0 of
                  Undefined u \<Rightarrow> Undefined u
                | Thrown (d1, h1) e' \<Rightarrow> Thrown (v\<lparr>data_m := d1\<rparr>, h1) e'
                | Done (d1, h1) _ \<Rightarrow> Thrown (v\<lparr>data_m := d1\<rparr>, h1) e)
           | Done (d0, h0) _ \<Rightarrow>
               Done (\<lparr>data_m = d0, size_m = size_m v + 1\<rparr>, h0) (size_m v)))"

text \<open>
  The handler of the non-growth branch of \<open>Emplace\<close>, entered with the block as the
  \<open>try\<close> body left it: \<open>Destroy(data_ + pos_t)\<close>, then an object is constructed in that
  slot from \<open>data_[size_ + pos_t + 1]\<close> (moved or copied, by the relocation test), the range
  \<open>[pos_t + 2, size_)\<close> is moved or copied to \<open>pos_t + 1\<close>, and \<open>throw;\<close> rethrows \<open>e\<close>. An
  exception of the handler's own construction or assignments replaces \<open>e\<close>.
\<close>

definition Emplace_handler ::
  "('a, 'arg) elem_type \<Rightarrow> 'a Vector \<Rightarrow> nat \<Rightarrow> 'a RawMemory \<times> ('a, 'arg) history \<Rightarrow> exn \<Rightarrow>
   ('a Vector \<times> ('a, 'arg) history, nat) outcome" where
  "Emplace_handler T v pos_t s e =
     (case s of (d, h) \<Rightarrow>
       (case Destroy d pos_t h of
          Undefined u \<Rightarrow> Undefined u
        | Thrown (d0, h0) e' \<Rightarrow> Thrown (v\<lparr>data_m := d0\<rparr>, h0) e'
        | Done (d0, h0) _ \<Rightarrow>
            if relocate_by_move T then
              (case ForwardConstruct_from T d0 pos_t (size_m v + pos_t + 1) h0 of
                 Undefined u \<Rightarrow> Undefined u
               | Thrown (d1, h1) e' \<Rightarrow> Thrown (v\<lparr>data_m := d1\<rparr>, h1) e'
               | Done (d1, h1) _ \<Rightarrow>
                   (case move_range T d1 (pos_t + 2) (size_m v) (pos_t + 1) h1 of
                      Undefined u \<Rightarrow> Undefined u
                    | Thrown (d2, h2) e' \<Rightarrow> Thrown (v\<lparr>data_m := d2\<rparr>, h2) e'
                    | Done (d2, h2) _ \<Rightarrow> Thrown (v\<lparr>data_m := d2\<rparr>, h2) e))
            else
              (case CopyConstruct_from T d0 pos_t (size_m v + pos_t + 1) h0 of
                 Undefined u \<Rightarrow> Undefined u
               | Thrown (d1, h1) e' \<Rightarrow> Thrown (v\<lparr>data_m := d1\<rparr>, h1) e'
               | Done (d1, h1) _ \<Rightarrow>
                   (case copy_range T d1 (pos_t + 2) (size_m v) (pos_t + 1) h1 of
                      Undefined u \<Rightarrow> Undefined u
                    | Thrown (d2, h2) e' \<Rightarrow> Thrown (v\<lparr>data_m := d2\<rparr>, h2) e'
                    | Done (d2, h2) _ \<Rightarrow> Thrown (v\<lparr>data_m := d2\<rparr>, h2) e))))"

text \<open>
  \<open>Emplace(pos, args...)\<close> with \<open>pos_t = pos - begin()\<close>; the result is the index of the
  returned iterator.

  Growth (\<open>size_ == Capacity()\<close>): as in \<open>PushBack\<close>, with the new element constructed in
  slot \<open>pos_t\<close> of the new block and two relocations around it. When \<open>size_ < pos_t\<close> the
  first relocation leaves the old block before \<open>size_ - pos_t\<close> is computed.

  No growth, \<open>size_ != 0\<close>: the local \<open>temp\<close> is constructed from the arguments, the last
  element is move-constructed into slot \<open>size_\<close>, \<open>std::move_backward\<close> shifts
  \<open>[pos_t, size_ - 1)\<close> to end at \<open>size_\<close>, and \<open>temp\<close> is move-assigned to slot \<open>pos_t\<close>.
  \<open>temp\<close> is destroyed when its scope is left, also by an exception, before the handler
  runs. No growth, \<open>size_ == 0\<close>: the element is constructed in slot \<open>pos_t\<close>, by
  \<open>ForwardConstruct\<close> or \<open>CopyConstruct\<close>.
\<close>

definition Emplace ::
  "('a, 'arg) elem_type \<Rightarrow> 'a Vector \<times> ('a, 'arg) history \<Rightarrow> nat \<Rightarrow> 'arg \<Rightarrow>
   ('a Vector \<times> ('a, 'arg) history, nat) outcome" where
  "Emplace T s pos_t a =
     (case s of (v, h) \<Rightarrow>
        if size_m v = Capacity v then
          (case Allocate T (if size_m v = 0 then 1 else size_m v * 2) of
             None \<Rightarrow> Thrown (v, h) BadAlloc
           | Some new_data \<Rightarrow>
               (case ForwardConstruct T new_data pos_t a h of
                  Undefined u \<Rightarrow> Undefined u
                | Thrown (new0, h0) e \<Rightarrow>
                    (case Destroy new0 pos_t h0 of
                       Undefined u \<Rightarrow> Undefined u
                     | Thrown (new1, h1) e' \<Rightarrow> Thrown (v, h1) e'
                     | Done (new1, h1) _ \<Rightarrow> Thrown (v, h1) e)
                | Done (new0, h0) _ \<Rightarrow>
                    (case relocate T (data_m v) 0 pos_t new0 0 h0 of
                       Undefined u \<Rightarrow> Undefined u
                     | Thrown (old1, new1, h1) e \<Rightarrow> Thrown (v\<lparr>data_m := old1\<rparr>, h1) e
                     | Done (old1, new1, h1) _ \<Rightarrow>
                         (case relocate T old1 pos_t (size_m v - pos_t) new1 (pos_t + 1) h1 of
                            Undefined u \<Rightarrow> Undefined u
                          | Thrown (old2, new2, h2) e \<Rightarrow> Thrown (v\<lparr>data_m := old2\<rparr>, h2) e
                          | Done (old2, new2, h2) _ \<Rightarrow>
                              (case destroy_n old2 0 (size_m v) h2 of
                                 Undefined u \<Rightarrow> Undefined u
                               | Thrown (old3, h3) e \<Rightarrow> Thrown (v\<lparr>data_m := new2\<rparr>, h3) e
                               | Done (old3, h3) _ \<Rightarrow>
                                   Done (\<lparr>data_m = new2, size_m = size_m v + 1\<rparr>, h3) pos_t)))))
        else if size_m v \<noteq> 0 then
          (case construct T h a of
             Inl e \<Rightarrow> Emplace_handler T v pos_t (data_m v, h @ [EvConstruct a]) e
           | Inr temp \<Rightarrow>
               (case ForwardConstruct_from T (data_m v) (size_m v) (size_m v - 1)
                       (h @ [EvConstruct a]) of
                  Undefined u \<Rightarrow> Undefined u
                | Thrown (d1, h1) e \<Rightarrow> Emplace_handler T v pos_t (d1, h1 @ [EvDestroy temp]) e
                | Done (d1, h1) _ \<Rightarrow>
                    (case move_backward T d1 pos_t (size_m v - 1) (size_m v) h1 of
                       Undefined u \<Rightarrow> Undefined u
                     | Thrown (d2, h2) e \<Rightarrow>
                         Emplace_handler T v pos_t (d2, h2 @ [EvDestroy temp]) e
                     | Done (d2, h2) _ \<Rightarrow>
                         if length d2 \<le> pos_t then Undefined (OutOfBlock pos_t)
                         else
                           (case d2 ! pos_t of
                              Raw \<Rightarrow> Undefined (ReadUnconstructed pos_t)
                            | Live y \<Rightarrow>
                                (case move_assign T h2 y temp of
                                   Inl e \<Rightarrow>
                                     Emplace_handler T v pos_t
                                       (d2, h2 @ [EvMoveAssign y temp, EvDestroy temp]) e
                                 | Inr (y', temp') \<Rightarrow>
                                     Done (\<lparr>data_m = d2[pos_t := Live y'],
                                            size_m = size_m v + 1\<rparr>,
                                           h2 @ [EvMoveAssign y temp, EvDestroy temp']) pos_t)))))
        else
          (case (if relocate_by_move T then ForwardConstruct T (data_m v) pos_t a h
                 else CopyConstruct T (data_m v) pos_t a h) of
             Undefined u \<Rightarrow> Undefined u
           | Thrown (d0, h0) e \<Rightarrow> Emplace_handler T v pos_t (d0, h0) e
           | Done (d0, h0) _ \<Rightarrow> Done (\<lparr>data_m = d0, size_m = size_m v + 1\<rparr>, h0) pos_t))"

text \<open>\<open>Insert(pos, value)\<close> forwards to \<open>Emplace\<close>.\<close>

definition Insert ::
  "('a, 'arg) elem_type \<Rightarrow> 'a Vector \<times> ('a, 'arg) history \<Rightarrow> nat \<Rightarrow> 'arg \<Rightarrow>
   ('a Vector \<times> ('a, 'arg) history, nat) outcome" where
  "Insert T s pos_t a = Emplace T s pos_t a"

text \<open>
  \<open>Erase(pos)\<close>: \<open>std::move\<close> shifts \<open>[pos_t + 1, size_)\<close> to \<open>pos_t\<close>, the last object is
  destroyed, \<open>size_\<close> decreases. The \<open>assert\<close> on \<open>pos\<close> is absent from a release build; with
  \<open>size_ \<le> pos_t\<close> the range given to \<open>std::move\<close> is not a range.
\<close>

definition Erase ::
  "('a, 'arg) elem_type \<Rightarrow> 'a Vector \<times> ('a, 'arg) history \<Rightarrow> nat \<Rightarrow>
   ('a Vector \<times> ('a, 'arg) history, nat) outcome" where
  "Erase T s pos_t =
     (case s of (v, h) \<Rightarrow>
       (case move_range T (data_m v) (pos_t + 1) (size_m v) pos_t h of
          Undefined u \<Rightarrow> Undefined u
        | Thrown (d0, h0) e \<Rightarrow> Thrown (v\<lparr>data_m := d0\<rparr>, h0) e
        | Done (d0, h0) _ \<Rightarrow>
            if size_m v = 0 then Undefined BeforeBlock
            else
              (case Destroy d0 (size_m v - 1) h0 of
                 Undefined u \<Rightarrow> Undefined u
               | Thrown (d1, h1) e \<Rightarrow> Thrown (v\<lparr>data_m := d1\<rparr>, h1) e
               | Done (d1, h1) _ \<Rightarrow>
                   Done (\<lparr>data_m = d1, size_m = size_m v - 1\<rparr>, h1) pos_t)))"

text \<open>
  \<open>PopBack()\<close>: \<open>Destroy(data_ + size_ - 1); --size_;\<close>. On an empty vector the address is
  one before the block.
\<close>

definition PopBack ::
  "'a Vector \<times> ('a, 'arg) history \<Rightarrow> ('a Vector \<times> ('a, 'arg) history, unit) outcome" where
  "PopBack s =
     (case s of (v, h) \<Rightarrow>
        if size_m v = 0 then Undefined BeforeBlock
        else
          (case Destroy (data_m v) (size_m v - 1) h of
             Undefined u \<Rightarrow> Undefined u
           | Thrown (d0, h0) e \<Rightarrow> Thrown (v\<lparr>data_m := d0\<rparr>, h0) e
           | Done (d0, h0) _ \<Rightarrow> Done (\<lparr>data_m = d0, size_m = size_m v - 1\<rparr>, h0) ()))"

text \<open>
  \<open>operator[](index)\<close> reads \<open>data_[index]\<close>; \<open>Back()\<close> reads \<open>data_[size_ - 1]\<close>. The result
  is the value of the object referred to.
\<close>

definition index_op :: "'a Vector \<Rightarrow> nat \<Rightarrow> (unit, 'a) outcome" where
  "index_op v i =
     (if length (data_m v) \<le> i then Undefined (OutOfBlock i)
      else case data_m v ! i of
             Raw \<Rightarrow> Undefined (ReadUnconstructed i)
           | Live x \<Rightarrow> Done () x)"

definition Back :: "'a Vector \<Rightarrow> (unit, 'a) outcome" where
  "Back v = (if size_m v = 0 then Undefined BeforeBlock else index_op v (size_m v - 1))"

text \<open>
  \<open>Resize(new_size)\<close>. Shrinking destroys \<open>[new_size, size_)\<close>. Growing reserves when
  \<open>Capacity() < new_size\<close> and then value-constructs \<open>new_size - size_\<close> objects starting at
  slot \<open>Capacity() - count_new_elem\<close>.
\<close>

definition Resize ::
  "('a, 'arg) elem_type \<Rightarrow> 'a Vector \<times> ('a, 'arg) history \<Rightarrow> nat \<Rightarrow>
   ('a Vector \<times> ('a, 'arg) history, unit) outcome" where
  "Resize T s new_size =
     (case s of (v, h) \<Rightarrow>
        if new_size \<le> size_m v then
          (case destroy_n (data_m v) new_size (size_m v - new_size) h of
             Undefined u \<Rightarrow> Undefined u
           | Thrown (d0, h0) e \<Rightarrow> Thrown (v\<lparr>data_m := d0\<rparr>, h0) e
           | Done (d0, h0) _ \<Rightarrow> Done (\<lparr>data_m = d0, size_m = new_size\<rparr>, h0) ())
        else
          (case (if Capacity v < new_size then Reserve T (v, h) new_size else Done (v, h) ()) of
             Undefined u \<Rightarrow> Undefined u
           | Thrown s1 e \<Rightarrow> Thrown s1 e
           | Done (v1, h1) _ \<Rightarrow>
               (case uninitialized_value_construct_n T (data_m v1)
                       (Capacity v1 - (new_size - size_m v)) (new_size - size_m v) h1 of
                  Undefined u \<Rightarrow> Undefined u
                | Thrown (d2, h2) e \<Rightarrow> Thrown (v1\<lparr>data_m := d2\<rparr>, h2) e
                | Done (d2, h2) _ \<Rightarrow> Done (\<lparr>data_m = d2, size_m = new_size\<rparr>, h2) ())))"

section \<open>Construction, destruction and the operations on two vectors\<close>

text \<open>
  \<open>~Vector()\<close>: \<open>std::destroy_n(data_.GetAddress(), size_)\<close>, then the block is released.
\<close>

definition Vector_dtor ::
  "'a Vector \<Rightarrow> ('a, 'arg) history \<Rightarrow> (('a, 'arg) history, unit) outcome" where
  "Vector_dtor v h =
     (case destroy_n (data_m v) 0 (size_m v) h of
        Undefined u \<Rightarrow> Undefined u
      | Thrown (d0, h0) e \<Rightarrow> Thrown h0 e
      | Done (d0, h0) _ \<Rightarrow> Done h0 ())"

text \<open>
  \<open>Vector(size)\<close> and \<open>Vector(const Vector& other)\<close>: a block of exactly that many slots,
  filled by \<open>std::uninitialized_value_construct_n\<close>, respectively
  \<open>std::uninitialized_copy_n\<close>. The result is the new vector; when the constructor
  throws there is none.
\<close>

definition Vector_size_ctor ::
  "('a, 'arg) elem_type \<Rightarrow> nat \<Rightarrow> ('a, 'arg) history \<Rightarrow> (('a, 'arg) history, 'a Vector) outcome" where
  "Vector_size_ctor T n h =
     (case Allocate T n of
        None \<Rightarrow> Thrown h BadAlloc
      | Some blk \<Rightarrow>
          (case uninitialized_value_construct_n T blk 0 n h of
             Undefined u \<Rightarrow> Undefined u
           | Thrown (d0, h0) e \<Rightarrow> Thrown h0 e
           | Done (d0, h0) _ \<Rightarrow> Done h0 \<lparr>data_m = d0, size_m = n\<rparr>))"

definition Vector_copy_ctor ::
  "('a, 'arg) elem_type \<Rightarrow> 'a Vector \<Rightarrow> ('a, 'arg) history \<Rightarrow>
   (('a, 'arg) history, 'a Vector) outcome" where
  "Vector_copy_ctor T other h =
     (case Allocate T (Size other) of
        None \<Rightarrow> Thrown h BadAlloc
      | Some blk \<Rightarrow>
          (case uninitialized_copy_n T (data_m other) 0 (Size other) blk 0 h of
             Undefined u \<Rightarrow> Undefined u
           | Thrown (d0, h0) e \<Rightarrow> Thrown h0 e
           | Done (d0, h0) _ \<Rightarrow> Done h0 \<lparr>data_m = d0, size_m = Size other\<rparr>))"

text \<open>
  Operations that take a second vector by reference can be handed the same object
  twice, so the vectors live in a store, addressed by numbers, and \<open>this\<close> and the
  argument are addresses.
\<close>

type_synonym 'a store = "nat \<Rightarrow> 'a Vector"




text \<open>The loop \<open>for (i = 0; i < n; ++i) data_[i] = rhs[i]\<close> of the copy assignment.\<close>

fun copy_assign_from ::
  "('a, 'arg) elem_type \<Rightarrow> 'a RawMemory \<Rightarrow> 'a RawMemory \<Rightarrow> nat \<Rightarrow> nat \<Rightarrow>
   ('a, 'arg) history \<Rightarrow> ('a RawMemory \<times> ('a, 'arg) history, unit) outcome" where
  "copy_assign_from T dst src i 0 h = Done (dst, h) ()"
| "copy_assign_from T dst src i (Suc n) h =
     (if length src \<le> i then Undefined (OutOfBlock i)
      else if length dst \<le> i then Undefined (OutOfBlock i)
      else case src ! i of
        Raw \<Rightarrow> Undefined (ReadUnconstructed i)
      | Live x \<Rightarrow>
          (case dst ! i of
             Raw \<Rightarrow> Undefined (ReadUnconstructed i)
           | Live y \<Rightarrow>
               (case copy_assign T h y x of
                  Inl e \<Rightarrow> Thrown (dst, h @ [EvCopyAssign y x]) e
                | Inr y' \<Rightarrow>
                    copy_assign_from T (dst[i := Live y']) src (Suc i) n
                      (h @ [EvCopyAssign y x]))))"

text \<open>
  \<open>operator=(const Vector& rhs)\<close>. Under the guard \<open>this != &rhs\<close>: when \<open>rhs\<close> does not
  fit, the local \<open>rhs_copy\<close> is built and swapped in, and its destructor then destroys
  what the vector held; otherwise the common prefix is assigned and the rest is
  destroyed or copy-constructed.
\<close>

definition copy_assignment ::
  "('a, 'arg) elem_type \<Rightarrow> 'a store \<times> ('a, 'arg) history \<Rightarrow> nat \<Rightarrow> nat \<Rightarrow>
   ('a store \<times> ('a, 'arg) history, unit) outcome" where
  "copy_assignment T s this rhs =
     (case s of (st, h) \<Rightarrow>
        if this \<noteq> rhs then
          if length (data_m (st this)) < size_m (st rhs) then
            (case Vector_copy_ctor T (st rhs) h of
               Undefined u \<Rightarrow> Undefined u
             | Thrown h0 e \<Rightarrow> Thrown (st, h0) e
             | Done h0 rhs_copy \<Rightarrow>
                 (case Vector_dtor (st this) h0 of
                    Undefined u \<Rightarrow> Undefined u
                  | Thrown h1 e \<Rightarrow> Thrown (st(this := rhs_copy), h1) e
                  | Done h1 _ \<Rightarrow> Done (st(this := rhs_copy), h1) ()))
          else if size_m (st rhs) < size_m (st this) then
            (case copy_assign_from T (data_m (st this)) (data_m (st rhs)) 0 (size_m (st rhs)) h of
               Undefined u \<Rightarrow> Undefined u
             | Thrown (d0, h0) e \<Rightarrow> Thrown (st(this := (st this)\<lparr>data_m := d0\<rparr>), h0) e
             | Done (d0, h0) _ \<Rightarrow>
                 (case destroy_n d0 (size_m (st rhs)) (size_m (st this) - size_m (st rhs)) h0 of
                    Undefined u \<Rightarrow> Undefined u
                  | Thrown (d1, h1) e \<Rightarrow> Thrown (st(this := (st this)\<lparr>data_m := d1\<rparr>), h1) e
                  | Done (d1, h1) _ \<Rightarrow>
                      Done (st(this := \<lparr>data_m = d1, size_m = size_m (st rhs)\<rparr>), h1) ()))
          else
            (case copy_assign_from T (data_m (st this)) (data_m (st rhs)) 0 (size_m (st this)) h of
               Undefined u \<Rightarrow> Undefined u
             | Thrown (d0, h0) e \<Rightarrow> Thrown (st(this := (st this)\<lparr>data_m := d0\<rparr>), h0) e
             | Done (d0, h0) _ \<Rightarrow>
                 (case uninitialized_copy_n T (data_m (st rhs)) (size_m (st this))
                         (size_m (st rhs) - size_m (st this)) d0 (size_m (st this)) h0 of
                    Undefined u \<Rightarrow> Undefined u
                  | Thrown (d1, h1) e \<Rightarrow> Thrown (st(this := (st this)\<lparr>data_m := d1\<rparr>), h1) e
                  | Done (d1, h1) _ \<Rightarrow>
                      Done (st(this := \<lparr>data_m = d1, size_m = size_m (st rhs)\<rparr>), h1) ()))
        else Done (st, h) ())"

section \<open>The invariant of the data model\<close>

text \<open>
  \<open>size_ \<le> capacity\<close>, the slots \<open>[0, size_)\<close> hold objects, and the slots
  \<open>[size_, capacity)\<close> hold none.
\<close>

definition vector_inv :: "'a Vector \<Rightarrow> bool" where
  "vector_inv v =
     (size_m v \<le> length (data_m v) \<and>
      list_all (\<lambda>s. s \<noteq> Raw) (take (size_m v) (data_m v)) \<and>
      list_all (\<lambda>s. s = Raw) (drop (size_m v) (data_m v)))"

text \<open>The values of the live elements, in order.\<close>

definition elements :: "'a Vector \<Rightarrow> 'a list" where
  "elements v =
     List.map_filter (\<lambda>s. case s of Raw \<Rightarrow> None | Live x \<Rightarrow> Some x) (take (size_m v) (data_m v))"

section \<open>Observing the calls, element types for the examples\<close>

text \<open>The number of move-constructor and of copy-constructor calls in a history.\<close>

fun is_move_ctor :: "('a, 'arg) event \<Rightarrow> bool" where
  "is_move_ctor (EvMoveCtor x) = True"
| "is_move_ctor _ = False"

fun is_copy_ctor :: "('a, 'arg) event \<Rightarrow> bool" where
  "is_copy_ctor (EvCopyCtor x) = True"
| "is_copy_ctor _ = False"

fun is_construct :: "('a, 'arg) event \<Rightarrow> bool" where
  "is_construct (EvConstruct a) = True"
| "is_construct _ = False"

definition moves :: "('a, 'arg) history \<Rightarrow> nat" where
  "moves h = length (filter is_move_ctor h)"

definition copies :: "('a, 'arg) history \<Rightarrow> nat" where
  "copies h = length (filter is_copy_ctor h)"

text \<open>
  An element type like \<open>int\<close>: nothing throws, a moved-from object keeps its value, every
  allocation succeeds.
\<close>

definition int_like :: "(nat, nat) elem_type" where
  "int_like =
     \<lparr>is_nothrow_move_constructible = True, is_copy_constructible = True,
      construct = (\<lambda>h a. Inr a), construct_lvalue = (\<lambda>h a. Inr a),
      value_init = (\<lambda>h. Inr 0),
      copy_ctor = (\<lambda>h x. Inr x), move_ctor = (\<lambda>h x. Inr (x, x)),
      copy_assign = (\<lambda>h y x. Inr x), move_assign = (\<lambda>h y x. Inr (x, x)),
      alloc_ok = (\<lambda>n. True)\<rparr>"

text \<open>An element type whose construction from arguments always throws.\<close>

definition throwing_ctor :: "(nat, nat) elem_type" where
  "throwing_ctor =
     int_like\<lparr>construct := (\<lambda>h a. Inl (ElemExn 1)),
              construct_lvalue := (\<lambda>h a. Inl (ElemExn 1))\<rparr>"

text \<open>An instrumented element type whose third construction from arguments throws.\<close>

definition fails_on_third :: "(nat, nat) elem_type" where
  "fails_on_third =
     int_like\<lparr>construct :=
       (\<lambda>h a. if length (filter is_construct h) = 2 then Inl (ElemExn 1) else Inr a)\<rparr>"

text \<open>
  A move-only element type whose move constructor may throw: it throws on the value 2
  and leaves 0 in the source otherwise.
\<close>

definition move_only_throwing :: "(nat, nat) elem_type" where
  "move_only_throwing =
     int_like\<lparr>is_nothrow_move_constructible := False, is_copy_constructible := False,
              move_ctor := (\<lambda>h x. if x = 2 then Inl (ElemExn 7) else Inr (x, 0))\<rparr>"

text \<open>
  A copyable element type whose move constructor is not \<open>noexcept\<close> and whose copy
  constructor throws on the value 2.
\<close>

definition copy_throwing :: "(nat, nat) elem_type" where
  "copy_throwing =
     int_like\<lparr>is_nothrow_move_constructible := False,
              copy_ctor := (\<lambda>h x. if x = 2 then Inl (ElemExn 7) else Inr x)\<rparr>"




text \<open>
  The values handed to the move or copy constructor in a history, in the order of the
  calls, and the values of the objects in a list of slots.
\<close>

fun relocated_values :: "('a, 'arg) history \<Rightarrow> 'a list" where
  "relocated_values [] = []"
| "relocated_values (EvMoveCtor x # t) = x # relocated_values t"
| "relocated_values (EvCopyCtor x # t) = x # relocated_values t"
| "relocated_values (_ # t) = relocated_values t"

definition live_values :: "'a RawMemory \<Rightarrow> 'a list" where
  "live_values blk = List.map_filter (\<lambda>s. case s of Raw \<Rightarrow> None | Live x \<Rightarrow> Some x) blk"


text \<open>
  The element types for which a relocation cannot corrupt the old block: the
  relocation is by copy, or it is by move and the move constructor never throws. What is
  left out is a type relocated by move whose move constructor can throw, that is a
  move-only type without \<open>noexcept\<close> on its move constructor.
\<close>

definition strong_relocation :: "('a, 'arg) elem_type \<Rightarrow> bool" where
  "strong_relocation T = (relocate_by_move T \<longrightarrow> (\<forall>h x. \<exists>r. move_ctor T h x = Inr r))"

text \<open>
  Appends that cannot fail: every allocation succeeds, the construction from the
  arguments never throws, and neither does the constructor the relocation uses.
\<close>

definition appends_succeed :: "('a, 'arg) elem_type \<Rightarrow> bool" where
  "appends_succeed T =
     ((\<forall>n. alloc_ok T n) \<and> (\<forall>h a. \<exists>x. construct T h a = Inr x) \<and>
      (if relocate_by_move T then (\<forall>h x. \<exists>r. move_ctor T h x = Inr r)
       else (\<forall>h x. \<exists>y. copy_ctor T h x = Inr y)))"

text \<open>A sequence of appends, each a call of \<open>PushBack\<close> or of \<open>EmplaceBack\<close>.\<close>

datatype 'arg append_call = CallPushBack 'arg | CallEmplaceBack 'arg

fun append_all ::
  "('a, 'arg) elem_type \<Rightarrow> 'a Vector \<times> ('a, 'arg) history \<Rightarrow> 'arg append_call list \<Rightarrow>
   ('a Vector \<times> ('a, 'arg) history, unit) outcome" where
  "append_all T s [] = Done s ()"
| "append_all T s (CallPushBack a # cs) =
     (case PushBack T s a of
        Done s' _ \<Rightarrow> append_all T s' cs
      | Thrown s' e \<Rightarrow> Thrown s' e
      | Undefined u \<Rightarrow> Undefined u)"
| "append_all T s (CallEmplaceBack a # cs) =
     (case EmplaceBack T s a of
        Done s' _ \<Rightarrow> append_all T s' cs
      | Thrown s' e \<Rightarrow> Thrown s' e
      | Undefined u \<Rightarrow> Undefined u)"

text \<open>
  The growth policy in the words of the specification: the capacity starts at 0, an
  append that finds the array full (the size, \<open>n\<close> before the \<open>n + 1\<close>-th append, equal to
  the capacity) sets it to \<open>old == 0 ? 1 : old * 2\<close>, any other append leaves it.
  \<open>spec_capacity n\<close> is the capacity after \<open>n\<close> appends.
\<close>

primrec spec_capacity :: "nat \<Rightarrow> nat" where
  "spec_capacity 0 = 0"
| "spec_capacity (Suc n) =
     (if n = spec_capacity n then (if spec_capacity n = 0 then 1 else spec_capacity n * 2)
      else spec_capacity n)"

section \<open>Evaluation of the operations\<close>

lemmas op_defs =
  Reserve_def Allocate_def relocate_def relocate_by_move_def Vector_default_def PushBack_def
  EmplaceBack_def Capacity_def ForwardConstruct_def Resize_def Destroy_def Emplace_def
  Emplace_handler_def Insert_def ForwardConstruct_from_def CopyConstruct_from_def
  CopyConstruct_def move_backward_def move_range_def copy_range_def move_assign_slot_def
  copy_assign_slot_def Erase_def


section \<open>Copy assignment to itself\<close>

text \<open>
  C10. For every array \<open>v\<close>, the self-copy-assignment \<open>v = v\<close> is a no-op: no element is
  constructed, assigned or destroyed (the history of calls is unchanged), the call
  returns normally, and size, capacity and all element values are as before (the store
  is unchanged).
\<close>

theorem self_copy_assignment_noop:
  "copy_assignment T (st, h) a a = Done (st, h) ()"
  by (simp add: copy_assignment_def)

section \<open>Resize\<close>

text \<open>
  C4. \<open>Resize(n)\<close> with \<open>n > size\<close> is claimed to value-construct the slots \<open>[size, n)\<close>
  also when the capacity exceeds \<open>n\<close>. Evaluation: \<open>Reserve(4)\<close> and \<open>PushBack(7)\<close> on an
  empty vector give size 1 and capacity 4; \<open>Resize(2)\<close> then constructs the new element in
  slot 3 and sets the size to 2, so that slot 1 of the live range holds no object.
\<close>

theorem Resize_constructs_at_end_of_block:
  "Reserve int_like (Vector_default, []) 4 = Done (\<lparr>data_m = [Raw, Raw, Raw, Raw], size_m = 0\<rparr>, []) ()
   \<and> PushBack int_like (\<lparr>data_m = [Raw, Raw, Raw, Raw], size_m = 0\<rparr>, []) 7
       = Done (\<lparr>data_m = [Live 7, Raw, Raw, Raw], size_m = 1\<rparr>, [EvConstruct 7]) ()
   \<and> Resize int_like (\<lparr>data_m = [Live 7, Raw, Raw, Raw], size_m = 1\<rparr>, [EvConstruct 7]) 2
       = Done (\<lparr>data_m = [Live 7, Raw, Raw, Live 0], size_m = 2\<rparr>, [EvConstruct 7, EvValueInit]) ()"
  by (simp add: op_defs int_like_def numeral_eq_Suc)

text \<open>
  C8. Every public operation is claimed to preserve the invariant. Evaluation:
  the vector of size 1 and capacity 4 satisfies it, \<open>Resize(2)\<close> returns normally, and
  the vector it leaves does not: slot 1, inside the live range, is unconstructed, and
  slot 3, beyond the size, holds an object.
\<close>

theorem Resize_breaks_invariant:
  "vector_inv \<lparr>data_m = [Live (7::nat), Raw, Raw, Raw], size_m = 1\<rparr>
   \<and> Resize int_like (\<lparr>data_m = [Live 7, Raw, Raw, Raw], size_m = 1\<rparr>, []) 2
       = Done (\<lparr>data_m = [Live 7, Raw, Raw, Live 0], size_m = 2\<rparr>, [EvValueInit]) ()
   \<and> \<not> vector_inv \<lparr>data_m = [Live (7::nat), Raw, Raw, Live 0], size_m = 2\<rparr>"
  by (simp add: op_defs int_like_def vector_inv_def numeral_eq_Suc)

section \<open>The handlers of a failed construction\<close>

text \<open>
  C6. When the construction of the new element throws in \<open>PushBack\<close> or \<open>EmplaceBack\<close>
  without growth, the slot is claimed to be left unconstructed with no destructor run
  on it. Evaluation: after \<open>Reserve(1)\<close> on an empty vector, with an element type whose
  constructor throws, the handler runs the destructor on slot 0, which holds no object.
\<close>

theorem PushBack_handler_destroys_unconstructed_slot:
  "Reserve throwing_ctor (Vector_default, []) 1 = Done (\<lparr>data_m = [Raw], size_m = 0\<rparr>, []) ()
   \<and> PushBack throwing_ctor (\<lparr>data_m = [Raw], size_m = 0\<rparr>, []) 5
       = Undefined (DestroyUnconstructed 0)
   \<and> EmplaceBack throwing_ctor (\<lparr>data_m = [Raw], size_m = 0\<rparr>, []) 5
       = Undefined (DestroyUnconstructed 0)"
  by (simp add: op_defs throwing_ctor_def int_like_def)

text \<open>
  C3. When the initial construction throws in \<open>Emplace\<close> or \<open>Insert\<close> without growth, the
  handler is claimed to read no index beyond the live range. Evaluation, with an element
  type whose third construction throws: \<open>Reserve(4)\<close>, \<open>PushBack(1)\<close>, \<open>PushBack(2)\<close>, then
  \<open>Emplace(begin(), 9)\<close>. The construction of \<open>temp\<close> throws, the handler destroys the
  live element in slot 0 and reads \<open>data_[size_ + pos_t + 1]\<close>, slot 3, which is beyond
  the live range \<open>[0, 2)\<close> and holds no object.
\<close>

theorem Emplace_handler_reads_beyond_live_range:
  "Reserve fails_on_third (Vector_default, []) 4
       = Done (\<lparr>data_m = [Raw, Raw, Raw, Raw], size_m = 0\<rparr>, []) ()
   \<and> PushBack fails_on_third (\<lparr>data_m = [Raw, Raw, Raw, Raw], size_m = 0\<rparr>, []) 1
       = Done (\<lparr>data_m = [Live 1, Raw, Raw, Raw], size_m = 1\<rparr>, [EvConstruct 1]) ()
   \<and> PushBack fails_on_third (\<lparr>data_m = [Live 1, Raw, Raw, Raw], size_m = 1\<rparr>, [EvConstruct 1]) 2
       = Done (\<lparr>data_m = [Live 1, Live 2, Raw, Raw], size_m = 2\<rparr>, [EvConstruct 1, EvConstruct 2]) ()
   \<and> Emplace fails_on_third
         (\<lparr>data_m = [Live 1, Live 2, Raw, Raw], size_m = 2\<rparr>, [EvConstruct 1, EvConstruct 2]) 0 9
       = Undefined (ReadUnconstructed 3)
   \<and> Insert fails_on_third
         (\<lparr>data_m = [Live 1, Live 2, Raw, Raw], size_m = 2\<rparr>, [EvConstruct 1, EvConstruct 2]) 0 9
       = Undefined (ReadUnconstructed 3)"
  by (simp add: op_defs fails_on_third_def int_like_def numeral_eq_Suc)

section \<open>Insert followed by Erase\<close>

text \<open>
  C9. \<open>Insert(pos, v)\<close> followed by \<open>Erase(pos)\<close> is claimed to restore the sequence at
  every valid position. Evaluation at \<open>pos = end()\<close> without growth: after \<open>Reserve(4)\<close>,
  \<open>PushBack(1)\<close>, \<open>PushBack(2)\<close>, the call \<open>Insert(end(), 3)\<close> hands
  \<open>std::move_backward\<close> the bounds \<open>data_ + 2\<close> and \<open>data_ + 1\<close>, which are not a range, so
  the insertion itself has no defined result. At the position before, \<open>Insert\<close> and
  \<open>Erase\<close> do restore the vector.
\<close>

theorem Insert_at_end_without_growth_undefined:
  "Reserve int_like (Vector_default, []) 4
       = Done (\<lparr>data_m = [Raw, Raw, Raw, Raw], size_m = 0\<rparr>, []) ()
   \<and> PushBack int_like (\<lparr>data_m = [Raw, Raw, Raw, Raw], size_m = 0\<rparr>, []) 1
       = Done (\<lparr>data_m = [Live 1, Raw, Raw, Raw], size_m = 1\<rparr>, [EvConstruct 1]) ()
   \<and> PushBack int_like (\<lparr>data_m = [Live 1, Raw, Raw, Raw], size_m = 1\<rparr>, [EvConstruct 1]) 2
       = Done (\<lparr>data_m = [Live 1, Live 2, Raw, Raw], size_m = 2\<rparr>, [EvConstruct 1, EvConstruct 2]) ()
   \<and> Insert int_like
         (\<lparr>data_m = [Live 1, Live 2, Raw, Raw], size_m = 2\<rparr>, [EvConstruct 1, EvConstruct 2]) 2 3
       = Undefined (InvalidRange 2 1)
   \<and> Insert int_like
         (\<lparr>data_m = [Live 1, Live 2, Raw, Raw], size_m = 2\<rparr>, [EvConstruct 1, EvConstruct 2]) 1 3
       = Done (\<lparr>data_m = [Live 1, Live 3, Live 2, Raw], size_m = 3\<rparr>,
               [EvConstruct 1, EvConstruct 2, EvConstruct 3, EvMoveCtor 2, EvMoveAssign 2 3,
                EvDestroy 3]) 1
   \<and> Erase int_like
         (\<lparr>data_m = [Live 1, Live 3, Live 2, Raw], size_m = 3\<rparr>,
          [EvConstruct 1, EvConstruct 2, EvConstruct 3, EvMoveCtor 2, EvMoveAssign 2 3,
           EvDestroy 3]) 1
       = Done (\<lparr>data_m = [Live 1, Live 2, Raw, Raw], size_m = 2\<rparr>,
               [EvConstruct 1, EvConstruct 2, EvConstruct 3, EvMoveCtor 2, EvMoveAssign 2 3,
                EvDestroy 3, EvMoveAssign 3 2, EvDestroy 2]) 1"
  by (simp add: op_defs int_like_def numeral_eq_Suc)

section \<open>Moving a vector\<close>




section \<open>Counting the constructor calls of a relocation\<close>

lemma moves_append [simp]: "moves (h @ t) = moves h + moves t"
  by (simp add: moves_def)

lemma copies_append [simp]: "copies (h @ t) = copies h + copies t"
  by (simp add: copies_def)

lemma moves_simps [simp]:
  "moves [] = 0" "moves (EvMoveCtor x # t) = Suc (moves t)"
  "moves (EvCopyCtor x # t) = moves t" "moves (EvDestroy x # t) = moves t"
  "moves (EvConstruct a # t) = moves t" "moves (EvConstructLvalue a # t) = moves t"
  "moves (EvValueInit # t) = moves t" "moves (EvCopyAssign y x # t) = moves t"
  "moves (EvMoveAssign y x # t) = moves t"
  by (simp_all add: moves_def)

lemma copies_simps [simp]:
  "copies [] = 0" "copies (EvCopyCtor x # t) = Suc (copies t)"
  "copies (EvMoveCtor x # t) = copies t" "copies (EvDestroy x # t) = copies t"
  "copies (EvConstruct a # t) = copies t" "copies (EvConstructLvalue a # t) = copies t"
  "copies (EvValueInit # t) = copies t" "copies (EvCopyAssign y x # t) = copies t"
  "copies (EvMoveAssign y x # t) = copies t"
  by (simp_all add: copies_def)

lemma Destroy_Done:
  "Destroy blk i h = Done (blk', h') r \<Longrightarrow>
     \<exists>x. i < length blk \<and> blk ! i = Live x \<and> blk' = blk[i := Raw] \<and> h' = h @ [EvDestroy x]"
  by (auto simp: Destroy_def split: if_splits slot.splits)

lemma Destroy_not_Thrown: "Destroy blk i h \<noteq> Thrown s e"
  by (auto simp: Destroy_def split: if_splits slot.splits)

lemma destroy_n_not_Thrown: "destroy_n blk i n h \<noteq> Thrown s e"
  by (induction n arbitrary: blk i h)
     (auto split: outcome.splits prod.splits simp: Destroy_not_Thrown)







lemma ForwardConstruct_Done:
  "ForwardConstruct T blk i a h = Done (blk', h') r \<Longrightarrow>
     \<exists>x. i < length blk \<and> construct T h a = Inr x \<and> blk' = blk[i := Live x]
       \<and> h' = h @ [EvConstruct a]"
  by (auto simp: ForwardConstruct_def split: if_splits sum.splits)

lemma ForwardConstruct_Thrown:
  "ForwardConstruct T blk i a h = Thrown (blk', h') e \<Longrightarrow>
     i < length blk \<and> construct T h a = Inl e \<and> blk' = blk \<and> h' = h @ [EvConstruct a]"
  by (auto simp: ForwardConstruct_def split: if_splits sum.splits)

lemma Allocate_Some: "Allocate T n = Some blk \<Longrightarrow> blk = replicate n Raw"
  by (auto simp: Allocate_def split: if_splits)

lemma Destroy_fresh: "Destroy (replicate n Raw) i h = Done s r \<Longrightarrow> False"
  by (auto simp: Destroy_def split: if_splits slot.splits)






lemma EmplaceBack_PushBack:
  "EmplaceBack T (v, h) a =
     (case PushBack T (v, h) a of
        Done (v', h') _ \<Rightarrow> Done (v', h') (size_m v)
      | Thrown s' e \<Rightarrow> Thrown s' e
      | Undefined u \<Rightarrow> Undefined u)"
proof (cases "size_m v = Capacity v")
  case grow: True
  define n where "n = (if size_m v = 0 then 1 else size_m v * 2)"
  note defs = PushBack_def EmplaceBack_def n_def
  show ?thesis
  proof (cases "Allocate T n")
    case None
    with grow show ?thesis by (simp add: defs)
  next
    case (Some new_data)
    show ?thesis
    proof (cases "ForwardConstruct T new_data (size_m v) a h")
      case (Undefined u)
      with grow Some show ?thesis by (simp add: defs)
    next
      case (Thrown s0 e)
      obtain new0 h0 where s0: "s0 = (new0, h0)" by (cases s0)
      show ?thesis
        using grow Some Thrown s0
        by (cases "Destroy new0 (size_m v) h0") (auto simp: defs)
    next
      case (Done s0 r0)
      obtain new0 h0 where s0: "s0 = (new0, h0)" by (cases s0)
      show ?thesis
      proof (cases "relocate T (data_m v) 0 (size_m v) new0 0 h0")
        case (Undefined u)
        with grow Some Done s0 show ?thesis by (simp add: defs)
      next
        case (Thrown s1 e)
        obtain old1 new1 h1 where "s1 = (old1, new1, h1)" by (cases s1)
        with grow Some Done s0 Thrown show ?thesis by (simp add: defs)
      next
        case rl: (Done s1 r1)
        obtain old1 new1 h1 where s1: "s1 = (old1, new1, h1)" by (cases s1)
        show ?thesis
          using grow Some Done s0 rl s1
          by (cases "destroy_n old1 0 (size_m v) h1") (auto simp: defs)
      qed
    qed
  qed
next
  case False
  show ?thesis
  proof (cases "ForwardConstruct T (data_m v) (size_m v) a h")
    case (Undefined u)
    with False show ?thesis by (simp add: PushBack_def EmplaceBack_def)
  next
    case (Thrown s0 e)
    obtain d0 h0 where s0: "s0 = (d0, h0)" by (cases s0)
    show ?thesis
      using False Thrown s0
      by (cases "Destroy d0 (size_m v) h0") (auto simp: PushBack_def EmplaceBack_def)
  next
    case (Done s0 r0)
    obtain d0 h0 where "s0 = (d0, h0)" by (cases s0)
    with False Done show ?thesis by (simp add: PushBack_def EmplaceBack_def)
  qed
qed

lemma EmplaceBack_Thrown:
  "EmplaceBack T (v, h) a = Thrown s e \<longleftrightarrow> PushBack T (v, h) a = Thrown s e"
  by (cases "PushBack T (v, h) a") (auto simp: EmplaceBack_PushBack)

lemma EmplaceBack_Done:
  "EmplaceBack T (v, h) a = Done s i \<longleftrightarrow> PushBack T (v, h) a = Done s () \<and> i = size_m v"
  by (cases "PushBack T (v, h) a") (auto simp: EmplaceBack_PushBack)


section \<open>The values a relocation transfers\<close>

lemma relocated_values_append [simp]:
  "relocated_values (h @ t) = relocated_values h @ relocated_values t"
  by (induction h rule: relocated_values.induct) simp_all

lemma live_values_simps [simp]:
  "live_values [] = []" "live_values (Live x # blk) = x # live_values blk"
  "live_values (Raw # blk) = live_values blk"
  by (simp_all add: live_values_def List.map_filter_def)







lemma live_values_append [simp]: "live_values (a @ b) = live_values a @ live_values b"
  by (simp add: live_values_def List.map_filter_def)





section \<open>Order of the calls and what a failed relocation leaves\<close>

lemma destroy_n_suffix:
  "destroy_n blk i n h = Done (blk', h') r \<Longrightarrow> \<exists>t. h' = h @ t"
proof (induction n arbitrary: blk i h)
  case 0
  then show ?case by simp
next
  case (Suc n)
  then show ?case
    by (fastforce split: outcome.splits prod.splits dest!: Destroy_Done)
qed

lemma uninitialized_move_n_suffix:
  "(uninitialized_move_n T src si n dst di h = Done (src', dst', h') r \<longrightarrow> (\<exists>t. h' = h @ t))
   \<and> (uninitialized_move_n T src si n dst di h = Thrown (src', dst', h') e \<longrightarrow> (\<exists>t. h' = h @ t))"
proof (induction n arbitrary: src si dst di h src' dst' h')
  case 0
  then show ?case by simp
next
  case (Suc n)
  show ?case
    using Suc.IH
    by (fastforce split: if_splits slot.splits sum.splits prod.splits outcome.splits)
qed

lemma uninitialized_copy_n_suffix:
  "(uninitialized_copy_n T src si n dst di h = Done (dst', h') r \<longrightarrow> (\<exists>t. h' = h @ t))
   \<and> (uninitialized_copy_n T src si n dst di h = Thrown (dst', h') e \<longrightarrow> (\<exists>t. h' = h @ t))"
proof (induction n arbitrary: src si dst di h dst' h')
  case 0
  then show ?case by simp
next
  case (Suc n)
  show ?case
    using Suc.IH
    by (fastforce split: if_splits slot.splits sum.splits prod.splits outcome.splits)
qed

lemma relocate_suffix:
  "(relocate T src si n dst di h = Done (src', dst', h') r \<longrightarrow> (\<exists>t. h' = h @ t))
   \<and> (relocate T src si n dst di h = Thrown (src', dst', h') e \<longrightarrow> (\<exists>t. h' = h @ t))"
  using uninitialized_move_n_suffix [of T src si n dst di h src' dst' h' r e]
    uninitialized_copy_n_suffix [of T src si n dst di h dst' h' r e]
  by (auto simp: relocate_def split: if_splits outcome.splits prod.splits)

lemma uninitialized_move_n_not_Thrown:
  assumes "\<forall>h x. \<exists>r. move_ctor T h x = Inr r"
  shows "uninitialized_move_n T src si n dst di h \<noteq> Thrown s e"
proof (induction n arbitrary: src si dst di h s)
  case 0
  then show ?case by simp
next
  case (Suc n)
  have nothrow: "move_ctor T h x \<noteq> Inl e'" for h x e'
    using assms by (metis sum.distinct(1))
  show ?case
    using Suc.IH nothrow
    by (auto split: if_splits slot.splits sum.splits prod.splits outcome.splits)
qed

lemma relocate_move_not_Thrown:
  assumes "strong_relocation T" and "relocate_by_move T"
  shows "relocate T src si n dst di h \<noteq> Thrown s e"
proof -
  from assms have "\<forall>h x. \<exists>r. move_ctor T h x = Inr r"
    by (simp add: strong_relocation_def)
  from uninitialized_move_n_not_Thrown [OF this] assms(2) show ?thesis
    by (simp add: relocate_def)
qed

lemma relocate_copy_Done:
  assumes "\<not> relocate_by_move T"
    and "relocate T src si n dst di h = Done (src', dst', h') r"
  shows "src' = src \<and> (\<exists>t. h' = h @ t)"
  using assms relocate_suffix [of T src si n dst di h src' dst' h' r]
  by (auto simp: relocate_def split: outcome.splits prod.splits)

lemma relocate_copy_Thrown:
  assumes "\<not> relocate_by_move T"
    and "relocate T src si n dst di h = Thrown (src', dst', h') e"
  shows "src' = src \<and> (\<exists>t. h' = h @ t)"
  using assms relocate_suffix [of T src si n dst di h src' dst' h' _ e]
  by (auto simp: relocate_def split: outcome.splits prod.splits)

lemma PushBack_strong:
  assumes "size_m v = Capacity v" and "strong_relocation T"
    and "PushBack T (v, h) a = Thrown (v', h') e"
  shows "v' = v \<and> (e = BadAlloc \<and> h' = h \<or> (\<exists>t. h' = h @ EvConstruct a # t))"
proof (cases "relocate_by_move T")
  case True
  note nt = relocate_move_not_Thrown [OF assms(2) True]
  show ?thesis
    using assms(1,3)
    by (auto simp: PushBack_def destroy_n_not_Thrown Destroy_not_Thrown nt
        split: option.splits outcome.splits prod.splits
        dest!: ForwardConstruct_Done ForwardConstruct_Thrown Allocate_Some Destroy_fresh)
next
  case False
  show ?thesis
    using assms(1,3)
    by (auto simp: PushBack_def destroy_n_not_Thrown Destroy_not_Thrown
        split: option.splits outcome.splits prod.splits
        dest!: ForwardConstruct_Done ForwardConstruct_Thrown Allocate_Some Destroy_fresh
          relocate_copy_Done [OF False] relocate_copy_Thrown [OF False])
qed

lemma PushBack_constructs_first:
  assumes "size_m v = Capacity v"
    and "PushBack T (v, h) a = Done (v', h') r"
  shows "\<exists>t. h' = h @ EvConstruct a # t"
  using assms
  by (auto simp: PushBack_def
      split: option.splits outcome.splits prod.splits
      dest!: ForwardConstruct_Done relocate_suffix [THEN conjunct1, rule_format] destroy_n_suffix)

lemma Emplace_strong:
  assumes "size_m v = Capacity v" and "strong_relocation T"
    and "Emplace T (v, h) pos_t a = Thrown (v', h') e"
  shows "v' = v \<and> (e = BadAlloc \<and> h' = h \<or> (\<exists>t. h' = h @ EvConstruct a # t))"
proof (cases "relocate_by_move T")
  case True
  note nt = relocate_move_not_Thrown [OF assms(2) True]
  show ?thesis
    using assms(1,3)
    by (auto simp: Emplace_def destroy_n_not_Thrown Destroy_not_Thrown nt
        split: option.splits outcome.splits prod.splits
        dest!: ForwardConstruct_Done ForwardConstruct_Thrown Allocate_Some Destroy_fresh)
next
  case False
  show ?thesis
    using assms(1,3)
    by (auto simp: Emplace_def destroy_n_not_Thrown Destroy_not_Thrown
        split: option.splits outcome.splits prod.splits
        dest!: ForwardConstruct_Done ForwardConstruct_Thrown Allocate_Some Destroy_fresh
          relocate_copy_Done [OF False] relocate_copy_Thrown [OF False])
qed

lemma Emplace_constructs_first:
  assumes "size_m v = Capacity v"
    and "Emplace T (v, h) pos_t a = Done (v', h') r"
  shows "\<exists>t. h' = h @ EvConstruct a # t"
  using assms
  by (auto simp: Emplace_def
      split: option.splits outcome.splits prod.splits
      dest!: ForwardConstruct_Done relocate_suffix [THEN conjunct1, rule_format] destroy_n_suffix)



section \<open>Successful appends keep the invariant\<close>

lemma vector_inv_iff:
  "vector_inv v \<longleftrightarrow>
     size_m v \<le> length (data_m v) \<and>
     (\<forall>j<length (data_m v). (data_m v ! j = Raw) = (size_m v \<le> j))"
proof -
  have drop_eq: "(\<forall>i<length (data_m v) - size_m v. data_m v ! (size_m v + i) = Raw)
      \<longleftrightarrow> (\<forall>j<length (data_m v). size_m v \<le> j \<longrightarrow> data_m v ! j = Raw)"
    (is "?L \<longleftrightarrow> ?R")
  proof
    assume l: ?L
    show ?R
    proof (intro allI impI)
      fix j assume "j < length (data_m v)" "size_m v \<le> j"
      then have "j - size_m v < length (data_m v) - size_m v" by arith
      from l [rule_format, OF this] \<open>size_m v \<le> j\<close> show "data_m v ! j = Raw" by simp
    qed
  next
    assume r: ?R
    show ?L
    proof (intro allI impI)
      fix i assume "i < length (data_m v) - size_m v"
      then have "size_m v + i < length (data_m v)" by arith
      from r [rule_format, OF this] show "data_m v ! (size_m v + i) = Raw" by simp
    qed
  qed
  show ?thesis
    unfolding vector_inv_def list_all_length
    using drop_eq by (auto simp: min_def not_le [symmetric])
qed

lemma destroy_n_ok:
  "i + n \<le> length blk \<Longrightarrow> (\<forall>j. i \<le> j \<and> j < i + n \<longrightarrow> blk ! j \<noteq> Raw) \<Longrightarrow>
     \<exists>blk' h'. destroy_n blk i n h = Done (blk', h') ()
       \<and> length blk' = length blk
       \<and> (\<forall>j<length blk. blk' ! j = (if i \<le> j \<and> j < i + n then Raw else blk ! j))"
proof (induction n arbitrary: blk i h)
  case 0
  then show ?case by simp
next
  case (Suc n)
  from Suc.prems obtain x where x: "blk ! i = Live x" and i: "i < length blk"
    by (cases "blk ! i") (auto dest: spec [of _ i])
  have d: "Destroy blk i h = Done (blk[i := Raw], h @ [EvDestroy x]) ()"
    using x i by (simp add: Destroy_def)
  have "Suc i + n \<le> length (blk[i := Raw])" using Suc.prems by simp
  moreover have "\<forall>j. Suc i \<le> j \<and> j < Suc i + n \<longrightarrow> blk[i := Raw] ! j \<noteq> Raw"
    using Suc.prems by (auto simp: nth_list_update)
  ultimately obtain blk' h' where
    r: "destroy_n (blk[i := Raw]) (Suc i) n (h @ [EvDestroy x]) = Done (blk', h') ()"
    and l: "length blk' = length (blk[i := Raw])"
    and v: "\<forall>j<length (blk[i := Raw]).
          blk' ! j = (if Suc i \<le> j \<and> j < Suc i + n then Raw else blk[i := Raw] ! j)"
    using Suc.IH [of "Suc i" "blk[i := Raw]" "h @ [EvDestroy x]"] by blast
  show ?case
    using d r l v i by (auto simp: nth_list_update)
qed

lemma uninitialized_move_n_ok:
  assumes total: "\<forall>h x. \<exists>r. move_ctor T h x = Inr r"
  shows "si + n \<le> length src \<Longrightarrow> di + n \<le> length dst \<Longrightarrow>
     (\<forall>j. si \<le> j \<and> j < si + n \<longrightarrow> src ! j \<noteq> Raw) \<Longrightarrow>
     \<exists>src' dst' h'. uninitialized_move_n T src si n dst di h = Done (src', dst', h') ()
       \<and> length src' = length src \<and> length dst' = length dst
       \<and> (\<forall>j<length src. (src' ! j = Raw) = (src ! j = Raw))
       \<and> (\<forall>j<length dst. if di \<le> j \<and> j < di + n then dst' ! j \<noteq> Raw else dst' ! j = dst ! j)"
proof (induction n arbitrary: src si dst di h)
  case 0
  then show ?case by auto
next
  case (Suc n)
  from Suc.prems obtain x where x: "src ! si = Live x" and si: "si < length src"
    and di: "di < length dst"
    by (cases "src ! si") (auto dest: spec [of _ si])
  from total obtain y x' where m: "move_ctor T h x = Inr (y, x')"
    by (metis surj_pair)
  let ?src = "src[si := Live x']" and ?dst = "dst[di := Live y]" and ?h = "h @ [EvMoveCtor x]"
  have "Suc si + n \<le> length ?src" "Suc di + n \<le> length ?dst"
    using Suc.prems by simp_all
  moreover have "\<forall>j. Suc si \<le> j \<and> j < Suc si + n \<longrightarrow> ?src ! j \<noteq> Raw"
    using Suc.prems by (auto simp: nth_list_update)
  ultimately obtain src' dst' h' where
    r: "uninitialized_move_n T ?src (Suc si) n ?dst (Suc di) ?h = Done (src', dst', h') ()"
    and l: "length src' = length ?src" "length dst' = length ?dst"
    and s: "\<forall>j<length ?src. (src' ! j = Raw) = (?src ! j = Raw)"
    and d: "\<forall>j<length ?dst. if Suc di \<le> j \<and> j < Suc di + n then dst' ! j \<noteq> Raw
              else dst' ! j = ?dst ! j"
    using Suc.IH [of "Suc si" ?src "Suc di" ?dst ?h] by blast
  have "uninitialized_move_n T src si (Suc n) dst di h = Done (src', dst', h') ()"
    using x si di m r by simp
  moreover have "\<forall>j<length src. (src' ! j = Raw) = (src ! j = Raw)"
    using s x si by (auto simp: nth_list_update split: if_splits)
  moreover have "\<forall>j<length dst. if di \<le> j \<and> j < di + Suc n then dst' ! j \<noteq> Raw
      else dst' ! j = dst ! j"
  proof (intro allI impI)
    fix j assume j: "j < length dst"
    show "if di \<le> j \<and> j < di + Suc n then dst' ! j \<noteq> Raw else dst' ! j = dst ! j"
      using d [rule_format, of j] j di by (cases "j = di") (auto simp: nth_list_update)
  qed
  ultimately show ?case using l by auto
qed

lemma uninitialized_copy_n_ok:
  assumes total: "\<forall>h x. \<exists>y. copy_ctor T h x = Inr y"
  shows "si + n \<le> length src \<Longrightarrow> di + n \<le> length dst \<Longrightarrow>
     (\<forall>j. si \<le> j \<and> j < si + n \<longrightarrow> src ! j \<noteq> Raw) \<Longrightarrow>
     \<exists>dst' h'. uninitialized_copy_n T src si n dst di h = Done (dst', h') ()
       \<and> length dst' = length dst
       \<and> (\<forall>j<length dst. if di \<le> j \<and> j < di + n then dst' ! j \<noteq> Raw else dst' ! j = dst ! j)"
proof (induction n arbitrary: si dst di h)
  case 0
  then show ?case by auto
next
  case (Suc n)
  from Suc.prems obtain x where x: "src ! si = Live x" and si: "si < length src"
    and di: "di < length dst"
    by (cases "src ! si") (auto dest: spec [of _ si])
  from total obtain y where m: "copy_ctor T h x = Inr y"
    by blast
  let ?dst = "dst[di := Live y]" and ?h = "h @ [EvCopyCtor x]"
  have "Suc si + n \<le> length src" "Suc di + n \<le> length ?dst"
    using Suc.prems by simp_all
  moreover have "\<forall>j. Suc si \<le> j \<and> j < Suc si + n \<longrightarrow> src ! j \<noteq> Raw"
    using Suc.prems by auto
  ultimately obtain dst' h' where
    r: "uninitialized_copy_n T src (Suc si) n ?dst (Suc di) ?h = Done (dst', h') ()"
    and l: "length dst' = length ?dst"
    and d: "\<forall>j<length ?dst. if Suc di \<le> j \<and> j < Suc di + n then dst' ! j \<noteq> Raw
              else dst' ! j = ?dst ! j"
    using Suc.IH [of "Suc si" "Suc di" ?dst ?h] by blast
  have "uninitialized_copy_n T src si (Suc n) dst di h = Done (dst', h') ()"
    using x si di m r by simp
  moreover have "\<forall>j<length dst. if di \<le> j \<and> j < di + Suc n then dst' ! j \<noteq> Raw
      else dst' ! j = dst ! j"
  proof (intro allI impI)
    fix j assume j: "j < length dst"
    show "if di \<le> j \<and> j < di + Suc n then dst' ! j \<noteq> Raw else dst' ! j = dst ! j"
      using d [rule_format, of j] j di by (cases "j = di") (auto simp: nth_list_update)
  qed
  ultimately show ?case using l by auto
qed

lemma relocate_ok:
  assumes "appends_succeed T"
    and "si + n \<le> length src" and "di + n \<le> length dst"
    and "\<forall>j. si \<le> j \<and> j < si + n \<longrightarrow> src ! j \<noteq> Raw"
  shows "\<exists>src' dst' h'. relocate T src si n dst di h = Done (src', dst', h') ()
       \<and> length src' = length src \<and> length dst' = length dst
       \<and> (\<forall>j<length src. (src' ! j = Raw) = (src ! j = Raw))
       \<and> (\<forall>j<length dst. if di \<le> j \<and> j < di + n then dst' ! j \<noteq> Raw else dst' ! j = dst ! j)"
proof (cases "relocate_by_move T")
  case True
  with assms(1) have "\<forall>h x. \<exists>r. move_ctor T h x = Inr r"
    by (simp add: appends_succeed_def)
  from uninitialized_move_n_ok [OF this assms(2,3,4), of h] True show ?thesis
    by (simp add: relocate_def)
next
  case False
  with assms(1) have "\<forall>h x. \<exists>y. copy_ctor T h x = Inr y"
    by (simp add: appends_succeed_def)
  from uninitialized_copy_n_ok [OF this assms(2,3,4), of h] obtain dst' h' where
    "uninitialized_copy_n T src si n dst di h = Done (dst', h') ()"
    "length dst' = length dst"
    "\<forall>j<length dst. if di \<le> j \<and> j < di + n then dst' ! j \<noteq> Raw else dst' ! j = dst ! j"
    by blast
  with False show ?thesis
    by (simp add: relocate_def)
qed

lemma PushBack_ok:
  assumes ok: "appends_succeed T" and inv: "vector_inv v"
  shows "\<exists>v' h'. PushBack T (v, h) a = Done (v', h') ()
       \<and> vector_inv v' \<and> size_m v' = Suc (size_m v)
       \<and> Capacity v' =
           (if size_m v = Capacity v then (if size_m v = 0 then 1 else size_m v * 2)
            else Capacity v)"
proof -
  from ok obtain x where x: "construct T h a = Inr x"
    unfolding appends_succeed_def by blast
  from inv have le: "size_m v \<le> length (data_m v)"
    and raw: "\<forall>j<length (data_m v). (data_m v ! j = Raw) = (size_m v \<le> j)"
    by (simp_all add: vector_inv_iff)
  show ?thesis
  proof (cases "size_m v = Capacity v")
    case True
    define n where "n = (if size_m v = 0 then 1 else size_m v * 2)"
    have n: "size_m v < n" by (simp add: n_def)
    have alloc: "Allocate T n = Some (replicate n Raw)"
      using ok by (simp add: Allocate_def appends_succeed_def)
    let ?new0 = "(replicate n Raw)[size_m v := Live x]" and ?h0 = "h @ [EvConstruct a]"
    have fc: "ForwardConstruct T (replicate n Raw) (size_m v) a h = Done (?new0, ?h0) ()"
      using x n by (simp add: ForwardConstruct_def)
    have live: "\<forall>j. 0 \<le> j \<and> j < 0 + size_m v \<longrightarrow> data_m v ! j \<noteq> Raw"
      using raw le by auto
    from relocate_ok [OF ok, of 0 "size_m v" "data_m v" 0 ?new0 ?h0] le n live
    obtain old1 new1 h1 where
      rl: "relocate T (data_m v) 0 (size_m v) ?new0 0 ?h0 = Done (old1, new1, h1) ()"
      and lo: "length old1 = length (data_m v)" and ln: "length new1 = n"
      and so: "\<forall>j<length (data_m v). (old1 ! j = Raw) = (data_m v ! j = Raw)"
      and sn: "\<forall>j<n. if j < size_m v then new1 ! j \<noteq> Raw else new1 ! j = ?new0 ! j"
      by auto
    have "\<forall>j. 0 \<le> j \<and> j < 0 + size_m v \<longrightarrow> old1 ! j \<noteq> Raw"
      using so raw le by auto
    from destroy_n_ok [of 0 "size_m v" old1 h1, OF _ this] lo le
    obtain old2 h2 where dn: "destroy_n old1 0 (size_m v) h1 = Done (old2, h2) ()"
      by auto
    let ?v' = "\<lparr>data_m = new1, size_m = size_m v + 1\<rparr>"
    have res: "PushBack T (v, h) a = Done (?v', h2) ()"
      using True alloc fc rl dn by (simp add: PushBack_def n_def)
    have "vector_inv ?v'"
      unfolding vector_inv_iff
    proof (intro conjI allI impI)
      show "size_m ?v' \<le> length (data_m ?v')" using n ln by simp
    next
      fix j assume "j < length (data_m ?v')"
      then have j: "j < n" using ln by simp
      show "(data_m ?v' ! j = Raw) = (size_m ?v' \<le> j)"
        using sn [rule_format, OF j] j n
        by (cases "j < size_m v"; cases "j = size_m v") (auto simp: nth_list_update)
    qed
    with res True ln show ?thesis by (auto simp: Capacity_def n_def)
  next
    case False
    with le have lt: "size_m v < length (data_m v)" by (simp add: Capacity_def)
    let ?v' = "\<lparr>data_m = (data_m v)[size_m v := Live x], size_m = size_m v + 1\<rparr>"
    have res: "PushBack T (v, h) a = Done (?v', h @ [EvConstruct a]) ()"
      using False x lt by (simp add: PushBack_def ForwardConstruct_def)
    have "vector_inv ?v'"
      unfolding vector_inv_iff using raw lt by (auto simp: nth_list_update)
    with res False show ?thesis by (auto simp: Capacity_def)
  qed
qed

lemma spec_capacity_step:
  "spec_capacity (Suc n) =
     (if n = spec_capacity n then (if n = 0 then 1 else n * 2) else spec_capacity n)"
  by simp

lemma append_all_ok:
  assumes ok: "appends_succeed T"
  shows "vector_inv v \<Longrightarrow> Capacity v = spec_capacity (size_m v) \<Longrightarrow>
     \<exists>v' h'. append_all T (v, h) cs = Done (v', h') ()
       \<and> vector_inv v' \<and> size_m v' = size_m v + length cs
       \<and> Capacity v' = spec_capacity (size_m v + length cs)"
proof (induction cs arbitrary: v h)
  case Nil
  then show ?case by simp
next
  case (Cons c cs)
  obtain a where c: "c = CallPushBack a \<or> c = CallEmplaceBack a"
    by (cases c) auto
  from PushBack_ok [OF ok Cons.prems(1), of h a] obtain v1 h1 where
    pb: "PushBack T (v, h) a = Done (v1, h1) ()" and inv1: "vector_inv v1"
    and sz: "size_m v1 = Suc (size_m v)"
    and cap: "Capacity v1 =
           (if size_m v = Capacity v then (if size_m v = 0 then 1 else size_m v * 2)
            else Capacity v)"
    by blast
  have cap1: "Capacity v1 = spec_capacity (size_m v1)"
    using cap Cons.prems(2) sz by (simp del: spec_capacity.simps add: spec_capacity_step)
  from Cons.IH [OF inv1 cap1, of h1] obtain v' h' where
    "append_all T (v1, h1) cs = Done (v', h') ()" "vector_inv v'"
    "size_m v' = size_m v1 + length cs" "Capacity v' = spec_capacity (size_m v1 + length cs)"
    by blast
  with pb sz c show ?case
    by (auto simp: EmplaceBack_PushBack)
qed

lemma uninitialized_move_n_length:
  "uninitialized_move_n T src si n dst di h = Done (src', dst', h') () \<Longrightarrow>
     length src' = length src \<and> length dst' = length dst"
proof (induction n arbitrary: src si dst di h)
  case 0
  then show ?case by simp
next
  case (Suc n)
  from Suc.prems show ?case
    by (auto split: if_splits slot.splits sum.splits prod.splits outcome.splits
        dest!: Suc.IH)
qed

lemma uninitialized_copy_n_length:
  "uninitialized_copy_n T src si n dst di h = Done (dst', h') () \<Longrightarrow> length dst' = length dst"
proof (induction n arbitrary: si dst di h)
  case 0
  then show ?case by simp
next
  case (Suc n)
  from Suc.prems show ?case
    by (auto split: if_splits slot.splits sum.splits prod.splits outcome.splits
        dest!: Suc.IH)
qed

lemma relocate_Done_length:
  "relocate T src si n dst di h = Done (src', dst', h') r \<Longrightarrow> length dst' = length dst"
  by (auto simp: relocate_def split: if_splits outcome.splits prod.splits
      dest: uninitialized_move_n_length uninitialized_copy_n_length)

lemma PushBack_Done_shape:
  assumes "PushBack T (v, h) a = Done (v', h') r"
  shows "size_m v' = Suc (size_m v) \<and>
     Capacity v' =
       (if size_m v = Capacity v then (if size_m v = 0 then 1 else size_m v * 2)
        else Capacity v)"
proof (cases "size_m v = Capacity v")
  case True
  with assms show ?thesis
    by (auto simp: PushBack_def Capacity_def
        split: option.splits outcome.splits prod.splits
        dest!: ForwardConstruct_Done Allocate_Some relocate_Done_length)
next
  case False
  with assms show ?thesis
    by (auto simp: PushBack_def Capacity_def
        split: outcome.splits prod.splits dest!: ForwardConstruct_Done)
qed

lemma append_all_Done:
  "Capacity v = spec_capacity (size_m v) \<Longrightarrow> append_all T (v, h) cs = Done (v', h') r \<Longrightarrow>
     size_m v' = size_m v + length cs \<and> Capacity v' = spec_capacity (size_m v + length cs)"
proof (induction cs arbitrary: v h)
  case Nil
  then show ?case by simp
next
  case (Cons c cs)
  obtain a where c: "c = CallPushBack a \<or> c = CallEmplaceBack a"
    by (cases c) auto
  from Cons.prems(2) c obtain v1 h1 where
    pb: "PushBack T (v, h) a = Done (v1, h1) ()"
    and rest: "append_all T (v1, h1) cs = Done (v', h') r"
    by (auto simp: EmplaceBack_Done split: outcome.splits)
  from PushBack_Done_shape [OF pb] Cons.prems(1)
  have sz: "size_m v1 = Suc (size_m v)" and cap: "Capacity v1 = spec_capacity (size_m v1)"
    by (simp_all del: spec_capacity.simps add: spec_capacity_step)
  from Cons.IH [OF cap rest] sz show ?case by simp
qed

lemma spec_capacity_mono: "spec_capacity n \<le> spec_capacity (Suc n)"
  by simp

lemma spec_capacity_pow2:
  "0 < n \<Longrightarrow> \<exists>k. spec_capacity n = 2 ^ k \<and> n \<le> 2 ^ k \<and> 2 ^ k < 2 * n"
proof (induction n)
  case 0
  then show ?case by simp
next
  case (Suc m)
  show ?case
  proof (cases "m = 0")
    case True
    then have "spec_capacity (Suc m) = 2 ^ 0" by simp
    with True show ?thesis by (intro exI [of _ 0]) simp
  next
    case False
    with Suc.IH obtain k where k: "spec_capacity m = 2 ^ k" "m \<le> 2 ^ k" "2 ^ k < 2 * m"
      by auto
    show ?thesis
    proof (cases "m = spec_capacity m")
      case True
      with False k have "spec_capacity (Suc m) = 2 ^ Suc k" by simp
      moreover have "Suc m \<le> 2 ^ Suc k" "(2::nat) ^ Suc k < 2 * Suc m"
        using k True False by simp_all
      ultimately show ?thesis by blast
    next
      case False
      with k have "spec_capacity (Suc m) = 2 ^ k" by simp
      moreover have "Suc m \<le> 2 ^ k" "(2::nat) ^ k < 2 * Suc m"
        using k False by simp_all
      ultimately show ?thesis by blast
    qed
  qed
qed

lemma strong_relocation_copy_throwing: "strong_relocation copy_throwing"
  by (simp add: strong_relocation_def relocate_by_move_def copy_throwing_def int_like_def)

lemma appends_succeed_int_like: "appends_succeed int_like"
  by (simp add: appends_succeed_def int_like_def)

lemma vector_inv_default: "vector_inv Vector_default"
  by (simp add: vector_inv_def Vector_default_def)


section \<open>The relocation policy\<close>



section \<open>The strong guarantee of a growing append or insert\<close>

text \<open>
  C2, as stated: whenever the relocation of an existing element fails in a
  growth-triggering append, the element values are as before the call. They are not
  for a move-only element type whose move constructor throws: the vector \<open>[1, 2]\<close> with
  size 2 and capacity 2 is built by two calls of \<open>PushBack\<close>; in \<open>PushBack(5)\<close> the first
  element is moved to the new block, the move of the second throws, and the vector is
  left as \<open>[0, 2]\<close>, its first element moved from.
\<close>

theorem moved_from_elements_after_failed_growth:
  "PushBack move_only_throwing (Vector_default, []) 1
       = Done (\<lparr>data_m = [Live 1], size_m = 1\<rparr>, [EvConstruct 1]) ()
   \<and> PushBack move_only_throwing (\<lparr>data_m = [Live 1], size_m = 1\<rparr>, [EvConstruct 1]) 2
       = Done (\<lparr>data_m = [Live 1, Live 2], size_m = 2\<rparr>,
               [EvConstruct 1, EvConstruct 2, EvMoveCtor 1, EvDestroy 0]) ()
   \<and> size_m \<lparr>data_m = [Live (1::nat), Live 2], size_m = 2\<rparr>
       = Capacity \<lparr>data_m = [Live (1::nat), Live 2], size_m = 2\<rparr>
   \<and> PushBack move_only_throwing
         (\<lparr>data_m = [Live 1, Live 2], size_m = 2\<rparr>,
          [EvConstruct 1, EvConstruct 2, EvMoveCtor 1, EvDestroy 0]) 5
       = Thrown (\<lparr>data_m = [Live 0, Live 2], size_m = 2\<rparr>,
                 [EvConstruct 1, EvConstruct 2, EvMoveCtor 1, EvDestroy 0,
                  EvConstruct 5, EvMoveCtor 1, EvMoveCtor 2, EvDestroy 1]) (ElemExn 7)
   \<and> elements \<lparr>data_m = [Live (1::nat), Live 2], size_m = 2\<rparr> = [1, 2]
   \<and> elements \<lparr>data_m = [Live (0::nat), Live 2], size_m = 2\<rparr> = [0, 2]"
  by (simp add: op_defs move_only_throwing_def int_like_def numeral_eq_Suc elements_def
      List.map_filter_def)

text \<open>
  C2, amended. For every growth-triggering append or insert (\<open>size == capacity\<close> at
  entry) on an element type that is relocated by copy or whose move constructor does
  not throw: if the call ends with an exception, the exception propagates with the
  vector exactly as before the call (same block, hence same size, capacity and element
  values), and either it is the allocation failure, before any call on an element, or
  the construction of the new element from the arguments was the first call on an
  element; the same order holds when the call returns. Nothing is said about a
  construction of the new element that throws.
\<close>

theorem growth_strong_guarantee:
  assumes "size_m v = Capacity v" and "strong_relocation T"
  shows "(PushBack T (v, h) a = Thrown (v', h') e \<longrightarrow>
            v' = v \<and> (e = BadAlloc \<and> h' = h \<or> (\<exists>t. h' = h @ EvConstruct a # t)))
       \<and> (PushBack T (v, h) a = Done (v', h') r \<longrightarrow> (\<exists>t. h' = h @ EvConstruct a # t))
       \<and> (EmplaceBack T (v, h) a = Thrown (v', h') e \<longrightarrow>
            v' = v \<and> (e = BadAlloc \<and> h' = h \<or> (\<exists>t. h' = h @ EvConstruct a # t)))
       \<and> (EmplaceBack T (v, h) a = Done (v', h') i \<longrightarrow> (\<exists>t. h' = h @ EvConstruct a # t))
       \<and> (Emplace T (v, h) pos_t a = Thrown (v', h') e \<longrightarrow>
            v' = v \<and> (e = BadAlloc \<and> h' = h \<or> (\<exists>t. h' = h @ EvConstruct a # t)))
       \<and> (Emplace T (v, h) pos_t a = Done (v', h') i \<longrightarrow> (\<exists>t. h' = h @ EvConstruct a # t))
       \<and> (Insert T (v, h) pos_t a = Thrown (v', h') e \<longrightarrow>
            v' = v \<and> (e = BadAlloc \<and> h' = h \<or> (\<exists>t. h' = h @ EvConstruct a # t)))
       \<and> (Insert T (v, h) pos_t a = Done (v', h') i \<longrightarrow> (\<exists>t. h' = h @ EvConstruct a # t))"
proof -
  have pt: "PushBack T (v, h) a = Thrown (v', h') e \<longrightarrow>
      v' = v \<and> (e = BadAlloc \<and> h' = h \<or> (\<exists>t. h' = h @ EvConstruct a # t))"
    by (rule impI) (rule PushBack_strong [OF assms])
  have pd: "PushBack T (v, h) a = Done (v', h') r \<longrightarrow> (\<exists>t. h' = h @ EvConstruct a # t)"
    by (rule impI) (rule PushBack_constructs_first [OF assms(1)])
  have bt: "EmplaceBack T (v, h) a = Thrown (v', h') e \<longrightarrow>
      v' = v \<and> (e = BadAlloc \<and> h' = h \<or> (\<exists>t. h' = h @ EvConstruct a # t))"
    unfolding EmplaceBack_Thrown by (rule pt)
  have bd: "EmplaceBack T (v, h) a = Done (v', h') i \<longrightarrow> (\<exists>t. h' = h @ EvConstruct a # t)"
  proof
    assume "EmplaceBack T (v, h) a = Done (v', h') i"
    then have "PushBack T (v, h) a = Done (v', h') ()"
      by (simp only: EmplaceBack_Done)
    then show "\<exists>t. h' = h @ EvConstruct a # t"
      by (rule PushBack_constructs_first [OF assms(1)])
  qed
  have et: "Emplace T (v, h) pos_t a = Thrown (v', h') e \<longrightarrow>
      v' = v \<and> (e = BadAlloc \<and> h' = h \<or> (\<exists>t. h' = h @ EvConstruct a # t))"
    by (rule impI) (rule Emplace_strong [OF assms])
  have ed: "Emplace T (v, h) pos_t a = Done (v', h') i \<longrightarrow> (\<exists>t. h' = h @ EvConstruct a # t)"
    by (rule impI) (rule Emplace_constructs_first [OF assms(1)])
  show ?thesis
    unfolding Insert_def by (intro conjI pt pd bt bd et ed)
qed

theorem growth_strong_guarantee_witness:
  "size_m \<lparr>data_m = [Live (1::nat), Live 2], size_m = 2\<rparr>
     = Capacity \<lparr>data_m = [Live (1::nat), Live 2], size_m = 2\<rparr>
   \<and> strong_relocation copy_throwing
   \<and> PushBack copy_throwing (\<lparr>data_m = [Live 1, Live 2], size_m = 2\<rparr>, []) 5
       = Thrown (\<lparr>data_m = [Live 1, Live 2], size_m = 2\<rparr>,
                 [EvConstruct 5, EvCopyCtor 1, EvCopyCtor 2, EvDestroy 1]) (ElemExn 7)
   \<and> (\<exists>t. [EvConstruct 5, EvCopyCtor 1, EvCopyCtor 2, EvDestroy 1]
            = [] @ EvConstruct (5::nat) # (t::(nat, nat) history))"
proof -
  let ?v = "\<lparr>data_m = [Live (1::nat), Live 2], size_m = 2\<rparr>"
  let ?h = "[EvConstruct 5, EvCopyCtor 1, EvCopyCtor 2, EvDestroy 1] :: (nat, nat) history"
  have full: "size_m ?v = Capacity ?v"
    by (simp add: Capacity_def)
  have t: "PushBack copy_throwing (?v, []) 5 = Thrown (?v, ?h) (ElemExn 7)"
    by (simp add: op_defs copy_throwing_def int_like_def numeral_eq_Suc)
  have "?v = ?v \<and> (ElemExn 7 = BadAlloc \<and> ?h = [] \<or> (\<exists>t. ?h = [] @ EvConstruct 5 # t))"
    by (rule growth_strong_guarantee [OF full strong_relocation_copy_throwing,
          THEN conjunct1, rule_format, OF t])
  then have ex: "\<exists>t. ?h = [] @ EvConstruct 5 # t"
    by simp
  from full strong_relocation_copy_throwing t ex show ?thesis
    by (intro conjI)
qed

section \<open>Appending to an empty vector\<close>

text \<open>
  C7. For every sequence of appends (\<open>PushBack\<close> or \<open>EmplaceBack\<close>) that starts from an
  empty array: when the \<open>n\<close> appends have returned, \<open>size()\<close> is \<open>n\<close> and the capacity is the
  one the doubling rule \<open>new = old == 0 ? 1 : old * 2\<close> gives. When no allocation,
  construction or relocation fails, the appends do return, and this holds after each of
  them. That capacity never decreases, and for \<open>k > 0\<close> it is the power of two with
  \<open>k \<le> 2 ^ j < 2 * k\<close>, which is the sequence 1, 2, 4, 8, ...
\<close>

theorem appends_follow_doubling:
  "(append_all T (Vector_default, h) cs = Done (v, h') r \<longrightarrow>
      Size v = length cs \<and> Capacity v = spec_capacity (length cs))
   \<and> (appends_succeed T \<longrightarrow>
        (\<forall>k\<le>length cs. \<exists>v h'.
            append_all T (Vector_default, h) (take k cs) = Done (v, h') ()
            \<and> Size v = k \<and> Capacity v = spec_capacity k))
   \<and> (\<forall>k. spec_capacity k \<le> spec_capacity (Suc k))
   \<and> (\<forall>k>0. \<exists>j. spec_capacity k = 2 ^ j \<and> k \<le> 2 ^ j \<and> 2 ^ j < 2 * k)"
proof (intro conjI allI impI)
  assume "append_all T (Vector_default, h) cs = Done (v, h') r"
  from append_all_Done [OF _ this]
  show "Size v = length cs" and "Capacity v = spec_capacity (length cs)"
    by (simp_all add: Size_def Capacity_def Vector_default_def)
next
  fix k assume ok: "appends_succeed T" and k: "k \<le> length cs"
  have "Capacity (Vector_default :: 'a Vector) = spec_capacity (size_m (Vector_default :: 'a Vector))"
    by (simp add: Capacity_def Vector_default_def)
  from append_all_ok [OF ok vector_inv_default this, of h "take k cs"] k
  show "\<exists>v h'. append_all T (Vector_default, h) (take k cs) = Done (v, h') ()
            \<and> Size v = k \<and> Capacity v = spec_capacity k"
    by (auto simp: Size_def Vector_default_def min_def)
next
  fix k show "spec_capacity k \<le> spec_capacity (Suc k)" by (rule spec_capacity_mono)
next
  fix k :: nat assume "0 < k"
  then show "\<exists>j. spec_capacity k = 2 ^ j \<and> k \<le> 2 ^ j \<and> 2 ^ j < 2 * k"
    by (rule spec_capacity_pow2)
qed

theorem appends_follow_doubling_witness:
  "appends_succeed int_like
   \<and> (\<exists>v h'. append_all int_like (Vector_default, [])
                [CallPushBack 1, CallEmplaceBack 2, CallPushBack 3] = Done (v, h') ()
        \<and> Size v = 3 \<and> Capacity v = 4)
   \<and> spec_capacity 1 = 1 \<and> spec_capacity 2 = 2 \<and> spec_capacity 3 = 4
   \<and> spec_capacity 4 = 4 \<and> spec_capacity 5 = 8"
proof -
  define cs where "cs = [CallPushBack 1, CallEmplaceBack 2, CallPushBack (3::nat)]"
  have len: "length cs = 3" and tk: "take 3 cs = cs"
    by (simp_all add: cs_def)
  have s: "spec_capacity 1 = 1" "spec_capacity 2 = 2" "spec_capacity 3 = 4"
    "spec_capacity 4 = 4" "spec_capacity 5 = 8"
    by code_simp+
  have "\<forall>k\<le>length cs. \<exists>v h'. append_all int_like (Vector_default, []) (take k cs)
          = Done (v, h') () \<and> Size v = k \<and> Capacity v = spec_capacity k"
    by (rule appends_follow_doubling
          [THEN conjunct2, THEN conjunct1, THEN mp, OF appends_succeed_int_like])
  then have "\<exists>v h'. append_all int_like (Vector_default, []) (take 3 cs)
          = Done (v, h') () \<and> Size v = 3 \<and> Capacity v = spec_capacity 3"
    unfolding len by blast
  then have "\<exists>v h'. append_all int_like (Vector_default, []) cs
          = Done (v, h') () \<and> Size v = 3 \<and> Capacity v = 4"
    unfolding tk s(3) .
  with s appends_succeed_int_like show ?thesis
    unfolding cs_def by blast
qed

end
